theory Spec2Isabelle
  imports Complex_Main "HOL-Library.Sublist" "HOL-Library.Log_Nat"
begin

section \<open>Python values\<close>

text \<open>
  The event records come out of \<^verbatim>\<open>response.json()\<close> and are typed
  \<^verbatim>\<open>dict[str, Any]\<close> in the source, so a field can hold any JSON value.
  A dictionary is an association list read with \<open>map_of\<close>.  JSON numbers are
  integers here (a fractional number behaves like an integer everywhere below, but
  for the name of its type in an error message: it is truthy when non-zero and it
  is not a \<^verbatim>\<open>str\<close>).  A string is a list of
  code points below 256.
\<close>

datatype json =
    JNull
  | JBool bool
  | JInt int
  | JStr string
  | JList "json list"
  | JDict "(string \<times> json) list"

type_synonym pydict = "(string \<times> json) list"

datatype py_error =
    TypeError
  | AttributeError
  | ValueError string
  | OSError
  | RequestException

text \<open>Python's truth value of an object, as \<^verbatim>\<open>if x:\<close> tests it.\<close>

fun truthy :: "json \<Rightarrow> bool" where
  "truthy JNull = False"
| "truthy (JBool b) = b"
| "truthy (JInt n) = (n \<noteq> 0)"
| "truthy (JStr s) = (s \<noteq> [])"
| "truthy (JList xs) = (xs \<noteq> [])"
| "truthy (JDict kvs) = (kvs \<noteq> [])"

text \<open>\<^verbatim>\<open>d.get(k)\<close> and \<^verbatim>\<open>d.get(k, default)\<close>.\<close>

definition dict_get :: "pydict \<Rightarrow> string \<Rightarrow> json" where
  "dict_get d k = (case map_of d k of None \<Rightarrow> JNull | Some v \<Rightarrow> v)"

definition dict_get_default :: "pydict \<Rightarrow> string \<Rightarrow> json \<Rightarrow> json" where
  "dict_get_default d k dflt = (case map_of d k of None \<Rightarrow> dflt | Some v \<Rightarrow> v)"

section \<open>String operations of the Python run time\<close>

text \<open>
  The characters \<^verbatim>\<open>str.strip()\<close> removes: those for which
  \<^verbatim>\<open>str.isspace\<close> holds, among the code points below 256.
\<close>

definition is_space :: "char \<Rightarrow> bool" where
  "is_space c = (let n = of_char c :: nat in
     (9 \<le> n \<and> n \<le> 13) \<or> (28 \<le> n \<and> n \<le> 32) \<or> n = 133 \<or> n = 160)"

definition py_strip :: "string \<Rightarrow> string" where
  "py_strip s = rev (dropWhile is_space (rev (dropWhile is_space s)))"

text \<open>
  \<open>before_first p s\<close> is the part of \<open>s\<close> before the leftmost occurrence of
  \<open>p\<close>, if \<open>p\<close> occurs.  \<^verbatim>\<open>p in s\<close> and \<^verbatim>\<open>s.split(p)[0]\<close> are read off it.
\<close>

primrec before_first :: "string \<Rightarrow> string \<Rightarrow> string option" where
  "before_first p [] = (if p = [] then Some [] else None)"
| "before_first p (c # cs) =
     (if prefix p (c # cs) then Some []
      else map_option ((#) c) (before_first p cs))"

definition py_in :: "string \<Rightarrow> string \<Rightarrow> bool" where
  "py_in p s = (before_first p s \<noteq> None)"

definition split_head :: "string \<Rightarrow> string \<Rightarrow> string" where
  "split_head p s = (case before_first p s of None \<Rightarrow> s | Some pre \<Rightarrow> pre)"

text \<open>The decimal digits of a natural number, as \<^verbatim>\<open>str(n)\<close> and \<^verbatim>\<open>f"{n}"\<close> print it.\<close>

fun show_nat :: "nat \<Rightarrow> string" where
  "show_nat n =
     (if n < 10 then [char_of (48 + n)]
      else show_nat (n div 10) @ [char_of (48 + n mod 10)])"

declare show_nat.simps [simp del]

section \<open>Floating point\<close>

text \<open>
  A Python \<^verbatim>\<open>float\<close> is an IEEE 754 double.  The model keeps a double as the
  rational number it denotes and rounds the exact result of every operation to
  the nearest double, ties to the even significand: \<open>round_double x\<close> scales
  \<open>\<bar>x\<bar>\<close> into the range from \<open>2^52\<close> to \<open>2^53\<close>, rounds it to an integer there and
  scales back.  Overflow and subnormal numbers are left out; every number of the
  layout lies between 1 and 1024 or is 0.  An \<^verbatim>\<open>int\<close> of this size converts to
  a double without rounding, so \<^verbatim>\<open>a + b\<close> with a double operand is
  \<open>round_double (a + b)\<close>, and the literal \<^verbatim>\<open>1.2\<close> is \<open>round_double (6 / 5)\<close>.
\<close>

definition pow2 :: "int \<Rightarrow> rat" where
  "pow2 i = (if 0 \<le> i then 2 ^ nat i else 1 / 2 ^ nat (- i))"

text \<open>The exponent \<open>e\<close> with \<open>2^e \<le> x < 2^(e + 1)\<close>, for positive \<open>x\<close>.\<close>

definition ilog2 :: "rat \<Rightarrow> int" where
  "ilog2 x = (if 1 \<le> x then bitlen \<lfloor>x\<rfloor> - 1 else - bitlen (\<lceil>1 / x\<rceil> - 1))"

definition round_double :: "rat \<Rightarrow> rat" where
  "round_double x =
     (if x = 0 then 0
      else (let a = \<bar>x\<bar>;
                e = ilog2 a - 52;
                m = a / pow2 e;
                f = \<lfloor>m\<rfloor>;
                r = m - of_int f;
                n = (if r < 1 / 2 then f else if 1 / 2 < r then f + 1
                     else if even f then f else f + 1)
            in sgn x * of_int n * pow2 e))"

section \<open>svg\_generator.py\<close>

definition TEXT_COLOUR :: string where
  "TEXT_COLOUR = ''#FFFFFF''"

definition time_patterns :: "string list" where
  "time_patterns = [''T'', '' at '', '' @ '']"

text \<open>
  The loop of \<^verbatim>\<open>parse_date_without_time\<close> over the patterns: the first pattern
  that occurs cuts the string and ends the loop.
\<close>

fun cut_at_first_pattern :: "string list \<Rightarrow> string \<Rightarrow> string" where
  "cut_at_first_pattern [] s = s"
| "cut_at_first_pattern (p # ps) s =
     (if py_in p s then split_head p s else cut_at_first_pattern ps s)"

text \<open>
  \<^verbatim>\<open>parse_date_without_time\<close>.  A falsy argument is returned as it is.  On a
  truthy argument that is not a \<^verbatim>\<open>str\<close> the function raises: \<^verbatim>\<open>'T' in 5\<close> is a
  TypeError, and a list or a dictionary has neither \<^verbatim>\<open>split\<close> nor \<^verbatim>\<open>strip\<close>.
\<close>

fun parse_date_without_time :: "json \<Rightarrow> py_error + json" where
  "parse_date_without_time (JStr s) =
     (if s = [] then Inr (JStr s)
      else Inr (JStr (py_strip (cut_at_first_pattern time_patterns s))))"
| "parse_date_without_time JNull = Inr JNull"
| "parse_date_without_time (JBool b) = (if b then Inl TypeError else Inr (JBool b))"
| "parse_date_without_time (JInt n) = (if n \<noteq> 0 then Inl TypeError else Inr (JInt n))"
| "parse_date_without_time (JList xs) =
     (if xs \<noteq> [] then Inl AttributeError else Inr (JList xs))"
| "parse_date_without_time (JDict kvs) =
     (if kvs \<noteq> [] then Inl AttributeError else Inr (JDict kvs))"


subsection \<open>The Graphic Document\<close>

text \<open>
  The classes \<^verbatim>\<open>Rect\<close>, \<^verbatim>\<open>Image\<close>, \<^verbatim>\<open>Text\<close> and \<^verbatim>\<open>SVG\<close> of the \<^verbatim>\<open>svg\<close>
  package are data classes; the model keeps the attributes that \<^verbatim>\<open>generate_svg\<close>
  sets (an attribute left out in a call is \<open>None\<close>).  A coordinate is the
  rational number that the \<^verbatim>\<open>int\<close> or the double of the source denotes.
\<close>

record rect =
  rect_x :: rat
  rect_y :: rat
  rect_width :: rat
  rect_height :: rat
  rect_fill :: string

record image =
  image_href :: string
  image_x :: rat
  image_y :: rat
  image_width :: rat
  image_height :: rat
  image_preserveAspectRatio :: string

record text_element =
  text_x :: rat
  text_y :: rat
  text_text :: json
  text_font_size :: nat
  text_font_weight :: "string option"
  text_fill :: string
  text_anchor :: string
  text_dominant_baseline :: "string option"
  text_rendering :: "string option"

datatype element = Rect rect | Image image | Text text_element

record svg =
  svg_width :: nat
  svg_height :: nat
  svg_viewBox :: string
  svg_elements :: "element list"

text \<open>An entry of \<^verbatim>\<open>content_elements\<close>.\<close>

record content_element =
  ce_text :: json
  ce_font_size :: nat
  ce_font_weight :: "string option"
  ce_fill :: string
  ce_y_offset :: rat

definition line_height_multiplier :: rat where
  "line_height_multiplier = round_double (6 / 5)"

text \<open>
  One \<^verbatim>\<open>content_elements.append({...})\<close> followed by
  \<^verbatim>\<open>current_y_offset += font_size * line_height_multiplier\<close>, on the pair
  \<open>(content_elements, current_y_offset)\<close>: a double product and a double sum.
\<close>

definition append_block ::
  "json \<Rightarrow> nat \<Rightarrow> string option \<Rightarrow> content_element list \<times> rat
     \<Rightarrow> content_element list \<times> rat" where
  "append_block txt fs fw st =
     (case st of (content_elements, current_y_offset) \<Rightarrow>
        (content_elements @
           [\<lparr>ce_text = txt, ce_font_size = fs, ce_font_weight = fw,
             ce_fill = TEXT_COLOUR, ce_y_offset = current_y_offset\<rparr>],
         round_double
           (current_y_offset + round_double (of_nat fs * line_height_multiplier))))"

text \<open>
  Lines 125 to 184 of \<^verbatim>\<open>generate_svg\<close>: the five optional blocks, in the order
  of the source, each guarded by the truth value of its field.  The date block
  calls \<^verbatim>\<open>parse_date_without_time\<close>, whose exception leaves the function.
\<close>

definition collect_content :: "pydict \<Rightarrow> py_error + content_element list \<times> rat" where
  "collect_content event_data =
     (let st0 = ([], 0);
          title = dict_get event_data ''title'';
          st1 = (if truthy title then append_block title 72 (Some ''bold'') st0 else st0);
          subtitle = dict_get event_data ''subtitle'';
          st2 = (if truthy subtitle then append_block subtitle 48 None st1 else st1);
          host = dict_get event_data ''host'';
          st3 = (if truthy host then append_block host 40 None st2 else st2);
          date = dict_get event_data ''date''
      in case (if truthy date
               then (case parse_date_without_time date of
                       Inl e \<Rightarrow> Inl e
                     | Inr date_without_time \<Rightarrow> Inr (append_block date_without_time 40 None st3))
               else Inr st3) of
           Inl e \<Rightarrow> Inl e
         | Inr st4 \<Rightarrow>
             (let location = dict_get event_data ''location'';
                  st5 = (if truthy location then append_block location 40 None st4 else st4)
              in Inr st5))"

definition background :: element where
  "background = Rect \<lparr>rect_x = 0, rect_y = 0, rect_width = 1024, rect_height = 1024,
     rect_fill = ''#000000''\<rparr>"

definition logo :: "string \<Rightarrow> element" where
  "logo logo_path = Image \<lparr>image_href = logo_path, image_x = 40, image_y = 40,
     image_width = 120, image_height = 120,
     image_preserveAspectRatio = ''xMidYMid meet''\<rparr>"

definition events_text :: element where
  "events_text = Text \<lparr>text_x = round_double (1024 / 2),
     text_y = round_double (40 + round_double (120 / 2)),
     text_text = JStr ''Palaeo Events!'', text_font_size = 64,
     text_font_weight = Some ''bold'', text_fill = TEXT_COLOUR,
     text_anchor = ''middle'', text_dominant_baseline = Some ''middle'',
     text_rendering = None\<rparr>"

text \<open>
  \<^verbatim>\<open>generate_svg\<close>.  \<open>path_exists\<close> is the file system as
  \<^verbatim>\<open>Path(logo_path).exists()\<close> reads it: the answer, or the OSError that
  \<^verbatim>\<open>exists\<close> lets through (a PermissionError, say), which leaves the function.
  The result is the list of warnings logged and either the exception raised or
  the document returned.
\<close>

definition generate_svg ::
  "(string \<Rightarrow> py_error + bool) \<Rightarrow> pydict \<Rightarrow> string \<Rightarrow> string list \<times> (py_error + svg)" where
  "generate_svg path_exists event_data logo_path =
     (case path_exists logo_path of
        Inl e \<Rightarrow> ([], Inl e)
      | Inr found \<Rightarrow>
     (let warnings =
            (if \<not> found
             then [''Logo file not found: '' @ logo_path @ ''. Continuing without logo.'']
             else []);
          width = 1024;
          height = 1024;
          elements = [background, logo logo_path, events_text]
      in case collect_content event_data of
           Inl e \<Rightarrow> (warnings, Inl e)
         | Inr (content_elements, current_y_offset) \<Rightarrow>
             (let content_x = round_double (of_nat width / 2);
                  total_content_height = current_y_offset;
                  content_start_y =
                    round_double (round_double (of_nat height - total_content_height) / 2);
                  elements = elements @
                    map (\<lambda>elem_data. Text
                           \<lparr>text_x = content_x,
                            text_y = round_double (content_start_y + ce_y_offset elem_data),
                            text_text = ce_text elem_data,
                            text_font_size = ce_font_size elem_data,
                            text_font_weight = ce_font_weight elem_data,
                            text_fill = ce_fill elem_data,
                            text_anchor = ''middle'',
                            text_dominant_baseline = None,
                            text_rendering = Some ''optimizeLegibility''\<rparr>)
                        content_elements
              in (warnings,
                  Inr \<lparr>svg_width = width, svg_height = height,
                       svg_viewBox = ''0 0 '' @ show_nat width @ '' '' @ show_nat height,
                       svg_elements = elements\<rparr>))))"

text \<open>The default value of the parameter \<^verbatim>\<open>logo_path\<close>.\<close>

definition default_logo_path :: string where
  "default_logo_path = ''files/APS logo-black.svg''"

subsection \<open>The layout rules of the specification\<close>

text \<open>
  The fixed field order and the table of font sizes and weights, as the
  specification lists them; a field is present when it holds a non-empty string.
  These definitions follow the specification's words and are compared with
  \<^verbatim>\<open>generate_svg\<close> below.
\<close>

definition field_order :: "string list" where
  "field_order = [''title'', ''subtitle'', ''host'', ''date'', ''location'']"

definition field_font_size :: "string \<Rightarrow> nat" where
  "field_font_size k =
     (if k = ''title'' then 72 else if k = ''subtitle'' then 48 else 40)"

definition field_font_weight :: "string \<Rightarrow> string option" where
  "field_font_weight k = (if k = ''title'' then Some ''bold'' else None)"

definition present :: "pydict \<Rightarrow> string \<Rightarrow> bool" where
  "present e k = (case map_of e k of Some (JStr s) \<Rightarrow> s \<noteq> [] | _ \<Rightarrow> False)"

text \<open>
  An event record in the sense of the specification: each of the five fields is
  absent, null or a string.
\<close>

definition optional_str :: "json option \<Rightarrow> bool" where
  "optional_str v = (case v of None \<Rightarrow> True | Some JNull \<Rightarrow> True | Some (JStr s) \<Rightarrow> True
                     | _ \<Rightarrow> False)"

definition event_record :: "pydict \<Rightarrow> bool" where
  "event_record e = list_all (\<lambda>k. optional_str (map_of e k)) field_order"

text \<open>
  The text a block displays: the field itself, and for the date the field with
  its time taken off.
\<close>

definition display_text :: "pydict \<Rightarrow> string \<Rightarrow> json" where
  "display_text e k =
     (if k = ''date''
      then (case parse_date_without_time (dict_get e k) of Inr d \<Rightarrow> d | Inl _ \<Rightarrow> JNull)
      else dict_get e k)"

text \<open>
  The height \<open>font_size \<times> 1.2\<close> of a block and the sum of a list of heights, as
  the doubles they are: the product is rounded, and the sum adds from the left
  and rounds after every addition.
\<close>

definition block_height :: "nat \<Rightarrow> rat" where
  "block_height fs = round_double (of_nat fs * round_double (6 / 5))"

definition float_sum :: "rat list \<Rightarrow> rat" where
  "float_sum hs = foldl (\<lambda>a h. round_double (a + h)) 0 hs"

text \<open>The fields whose value is truthy, in the fixed order.\<close>

definition truthy_fields :: "pydict \<Rightarrow> string list" where
  "truthy_fields e = filter (\<lambda>k. truthy (dict_get e k)) field_order"

text \<open>
  The invariant of the pair \<open>(content_elements, current_y_offset)\<close>: the running
  offset is the height of the blocks collected so far, and each block starts
  where the blocks before it end.
\<close>

definition offsets_ok :: "content_element list \<times> rat \<Rightarrow> bool" where
  "offsets_ok st \<longleftrightarrow>
     snd st = float_sum (map (\<lambda>b. block_height (ce_font_size b)) (fst st)) \<and>
     (\<forall>i < length (fst st). ce_y_offset (fst st ! i) =
        float_sum (map (\<lambda>b. block_height (ce_font_size b)) (take i (fst st))) \<and>
        ce_fill (fst st ! i) = TEXT_COLOUR)"

text \<open>Event records used as examples.\<close>

definition talk_event :: pydict where
  "talk_event = [(''title'', JStr ''Talk''), (''subtitle'', JStr []),
     (''date'', JStr ''2024-12-05T18:00:00''), (''host'', JNull)]"

definition meeting_event :: pydict where
  "meeting_event = [(''subtitle'', JStr ''Monthly Meeting''), (''host'', JStr ''Dr. Smith''),
     (''date'', JStr ''2024-12-05'')]"

definition tuesday_event :: pydict where
  "tuesday_event = [(''subtitle'', JStr ''Field trip''),
     (''date'', JStr ''Tuesday, December 5, 2024''), (''location'', JStr ''Calgary'')]"

section \<open>The Python library used by generate.py\<close>

text \<open>
  \<^verbatim>\<open>datetime.strptime\<close>, \<^verbatim>\<open>strftime\<close> and \<^verbatim>\<open>str()\<close> belong to the Python run
  time, not to the repository, and the names of days and months depend on the
  locale.  The model takes them as parameters: \<open>strptime lib s fmt\<close> is the
  calendar date parsed from the string \<open>s\<close>, or \<open>None\<close> where Python raises
  ValueError; \<open>strftime_A\<close> and \<open>strftime_B\<close> are \<^verbatim>\<open>strftime('%A')\<close> and
  \<^verbatim>\<open>strftime('%B')\<close>; \<open>str_of\<close> is \<^verbatim>\<open>str()\<close> of a value that is not a string.
  A \<^verbatim>\<open>datetime\<close> parsed with one of the formats below has midnight as its
  time, so the date is all of it.
\<close>

record date =
  d_year :: nat
  d_month :: nat
  d_day :: nat

record pylib =
  strptime :: "string \<Rightarrow> string \<Rightarrow> date option"
  strftime_A :: "date \<Rightarrow> string"
  strftime_B :: "date \<Rightarrow> string"
  str_of :: "json \<Rightarrow> string"

text \<open>A replacement field \<^verbatim>\<open>{x}\<close> of an f-string.\<close>

definition py_format :: "pylib \<Rightarrow> json \<Rightarrow> string" where
  "py_format lib v = (case v of JStr s \<Rightarrow> s | _ \<Rightarrow> str_of lib v)"

text \<open>
  \<^verbatim>\<open>sep.join(items)\<close>: a TypeError when an item is not a \<^verbatim>\<open>str\<close>.
\<close>

fun join_strs :: "string \<Rightarrow> string list \<Rightarrow> string" where
  "join_strs sep [] = []"
| "join_strs sep [x] = x"
| "join_strs sep (x # y # ys) = x @ sep @ join_strs sep (y # ys)"

fun str_items :: "json list \<Rightarrow> string list option" where
  "str_items [] = Some []"
| "str_items (JStr s # vs) = map_option ((#) s) (str_items vs)"
| "str_items (_ # vs) = None"

definition py_join :: "string \<Rightarrow> json list \<Rightarrow> py_error + string" where
  "py_join sep items =
     (case str_items items of None \<Rightarrow> Inl TypeError | Some ss \<Rightarrow> Inr (join_strs sep ss))"

section \<open>generate.py: the digest\<close>

definition date_formats :: "string list" where
  "date_formats =
     [''%Y-%m-%d'', ''%B %d, %Y'', ''%b %d, %Y'', ''%m/%d/%Y'', ''%d/%m/%Y'',
      ''%A, %B %d, %Y'', ''%A, %b %d, %Y'']"

text \<open>
  The loop over \<^verbatim>\<open>date_formats\<close>: a ValueError of \<^verbatim>\<open>strptime\<close> moves on to the
  next format, a success ends the loop.
\<close>

fun try_formats :: "pylib \<Rightarrow> string \<Rightarrow> string list \<Rightarrow> date option" where
  "try_formats lib date_str [] = None"
| "try_formats lib date_str (fmt # fmts) =
     (case strptime lib date_str fmt of
        Some parsed_date \<Rightarrow> Some parsed_date
      | None \<Rightarrow> try_formats lib date_str fmts)"

text \<open>
  Lines 242 to 271 of \<^verbatim>\<open>generate_content_txt\<close>: the pair
  \<open>(day_name, formatted_date)\<close> of one event.  \<^verbatim>\<open>strptime\<close> raises TypeError on
  an argument that is not a \<^verbatim>\<open>str\<close>, and only ValueError is caught.
\<close>

definition date_parts :: "pylib \<Rightarrow> pydict \<Rightarrow> py_error + string \<times> json" where
  "date_parts lib event_data =
     (let date_str = dict_get_default event_data ''date'' (JStr []);
          day_name = [];
          formatted_date = date_str
      in if truthy date_str
         then (case date_str of
                 JStr s \<Rightarrow>
                   (case try_formats lib s date_formats of
                      Some parsed_date \<Rightarrow>
                        Inr (strftime_A lib parsed_date,
                             JStr (strftime_B lib parsed_date @ '' '' @
                                   show_nat (d_day parsed_date)))
                    | None \<Rightarrow> Inr (day_name, formatted_date))
               | _ \<Rightarrow> Inl TypeError)
         else Inr (day_name, formatted_date))"

text \<open>
  Lines 273 to 292: the line of one event.  The first part is an f-string when
  there is a formatted date and the title itself otherwise, so a title that is not
  a \<^verbatim>\<open>str\<close> makes \<^verbatim>\<open>" ".join\<close> raise there.
\<close>

definition event_line :: "pylib \<Rightarrow> pydict \<Rightarrow> py_error + string" where
  "event_line lib event_data =
     (case date_parts lib event_data of
        Inl e \<Rightarrow> Inl e
      | Inr (day_name, formatted_date) \<Rightarrow>
          (let title = dict_get_default event_data ''title'' (JStr ''Event'');
               location = dict_get_default event_data ''location'' (JStr []);
               host = dict_get_default event_data ''host'' (JStr []);
               first_part =
                 (if day_name \<noteq> [] \<and> truthy formatted_date
                  then JStr (day_name @ '', '' @ py_format lib formatted_date @ '': '' @
                             py_format lib title)
                  else if truthy formatted_date
                  then JStr (py_format lib formatted_date @ '': '' @ py_format lib title)
                  else title);
               event_line_parts = [first_part] @
                 (if truthy location then [JStr (''@ '' @ py_format lib location)] else []) @
                 (if truthy host then [JStr (''('' @ py_format lib host @ '')'')] else [])
           in py_join '' '' event_line_parts))"

text \<open>The loop over the events; an exception in one event leaves the function.\<close>

fun event_lines :: "pylib \<Rightarrow> pydict list \<Rightarrow> py_error + string list" where
  "event_lines lib [] = Inr []"
| "event_lines lib (event_data # rest) =
     (case event_line lib event_data of
        Inl e \<Rightarrow> Inl e
      | Inr l \<Rightarrow>
          (case event_lines lib rest of Inl e \<Rightarrow> Inl e | Inr ls \<Rightarrow> Inr (l # ls)))"

definition footer :: "string list" where
  "footer =
     [[], ''For more information: see https://albertapaleo.org/events/calendar'', [],
      ''#palaeontology #paleontology #fossils #dinosaurs #events'']"

definition newline :: string where
  "newline = [CHR 0x0A]"

definition generate_content_txt :: "pylib \<Rightarrow> pydict list \<Rightarrow> py_error + string" where
  "generate_content_txt lib events_data =
     (case event_lines lib events_data of
        Inl e \<Rightarrow> Inl e
      | Inr lines \<Rightarrow> Inr (join_strs newline (lines @ footer)))"

section \<open>validators.py\<close>

text \<open>\<^verbatim>\<open>type(x).__name__\<close>.\<close>

fun type_name :: "json \<Rightarrow> string" where
  "type_name JNull = ''NoneType''"
| "type_name (JBool b) = ''bool''"
| "type_name (JInt n) = ''int''"
| "type_name (JStr s) = ''str''"
| "type_name (JList xs) = ''list''"
| "type_name (JDict kvs) = ''dict''"

text \<open>The loop of \<^verbatim>\<open>validate_api_response\<close>, from index \<open>i\<close> on.\<close>

fun validate_events :: "nat \<Rightarrow> json list \<Rightarrow> py_error + pydict list" where
  "validate_events i [] = Inr []"
| "validate_events i (JDict d # rest) =
     (case validate_events (Suc i) rest of
        Inl e \<Rightarrow> Inl e
      | Inr validated_events \<Rightarrow> Inr (d # validated_events))"
| "validate_events i (event # rest) =
     Inl (ValueError (''Event at index '' @ show_nat i @ '' must be a dictionary, got '' @
            type_name event @ ''. Please check the API response format.''))"

fun validate_api_response :: "json \<Rightarrow> py_error + pydict list" where
  "validate_api_response (JList events) = validate_events 0 events"
| "validate_api_response response_data =
     Inl (ValueError (''API response must be a list of events, got '' @
            type_name response_data @
            ''. Please check the API endpoint and response format.''))"

section \<open>generate.py: the batch\<close>

text \<open>
  What \<^verbatim>\<open>main\<close> does from the fetch on (line 122), with valid arguments and
  without \<^verbatim>\<open>--dry-run\<close>.  The environment holds what the run reads and writes:
  the file system as \<^verbatim>\<open>Path.exists\<close> sees it, and the two writers, each of which
  may raise.  \<open>write_svg env index doc\<close> stands for \<^verbatim>\<open>str(svg_content)\<close> and
  \<^verbatim>\<open>filename.write_text\<close> on the file of that index.  Logging is left out.
\<close>

record env =
  path_exists :: "string \<Rightarrow> py_error + bool"
  write_svg :: "nat \<Rightarrow> svg \<Rightarrow> py_error option"
  write_content :: "string \<Rightarrow> py_error option"

record outcome =
  svg_files :: "(nat \<times> svg) list"
  content_file :: "string option"
  exit_code :: nat

text \<open>
  The loop over the events of lines 143 to 164: any exception of \<^verbatim>\<open>generate_svg\<close>
  or of the writer is caught and the loop goes on with the next event.  The result
  lists the files written, by index.
\<close>

fun render_events :: "env \<Rightarrow> nat \<Rightarrow> pydict list \<Rightarrow> (nat \<times> svg) list" where
  "render_events env index [] = []"
| "render_events env index (event_data # rest) =
     (case snd (generate_svg (path_exists env) event_data default_logo_path) of
        Inl e \<Rightarrow> render_events env (Suc index) rest
      | Inr svg_content \<Rightarrow>
          (case write_svg env index svg_content of
             Some e \<Rightarrow> render_events env (Suc index) rest
           | None \<Rightarrow> (index, svg_content) # render_events env (Suc index) rest))"

text \<open>
  \<open>fetched\<close> is what \<^verbatim>\<open>client.get_events\<close> returned or raised.  Every exception
  that reaches \<^verbatim>\<open>main\<close> ends the run with exit status 1.
\<close>

definition main :: "env \<Rightarrow> pylib \<Rightarrow> py_error + json \<Rightarrow> outcome" where
  "main env lib fetched =
     (case (case fetched of
              Inl e \<Rightarrow> Inl e
            | Inr response_data \<Rightarrow> validate_api_response response_data) of
        Inl e \<Rightarrow> \<lparr>svg_files = [], content_file = None, exit_code = 1\<rparr>
      | Inr events_data \<Rightarrow>
          if length events_data = 0
          then \<lparr>svg_files = [], content_file = None, exit_code = 0\<rparr>
          else (let files = render_events env 0 events_data
                in case generate_content_txt lib events_data of
                     Inl e \<Rightarrow> \<lparr>svg_files = files, content_file = None, exit_code = 1\<rparr>
                   | Inr content_txt \<Rightarrow>
                       (case write_content env content_txt of
                          Some e \<Rightarrow>
                            \<lparr>svg_files = files, content_file = None, exit_code = 1\<rparr>
                        | None \<Rightarrow>
                            \<lparr>svg_files = files, content_file = Some content_txt,
                             exit_code = 0\<rparr>)))"

section \<open>The library in the C locale\<close>

text \<open>
  An instance of the library parameters, used to evaluate the examples: the
  behaviour of CPython in the C locale on strings of code points below 128, for
  the directives that occur in \<open>date_formats\<close>.
\<close>

subsection \<open>Calendar\<close>

definition is_leap :: "nat \<Rightarrow> bool" where
  "is_leap y = (y mod 4 = 0 \<and> (y mod 100 \<noteq> 0 \<or> y mod 400 = 0))"

definition days_in_month :: "nat \<Rightarrow> nat \<Rightarrow> nat" where
  "days_in_month y m =
     (if m = 2 then (if is_leap y then 29 else 28)
      else if m = 4 \<or> m = 6 \<or> m = 9 \<or> m = 11 then 30 else 31)"

definition days_before_year :: "nat \<Rightarrow> nat" where
  "days_before_year y =
     (y - 1) * 365 + (y - 1) div 4 + (y - 1) div 400 - (y - 1) div 100"

definition days_before_month :: "nat \<Rightarrow> nat \<Rightarrow> nat" where
  "days_before_month y m =
     [0, 31, 59, 90, 120, 151, 181, 212, 243, 273, 304, 334] ! (m - 1) +
     (if 2 < m \<and> is_leap y then 1 else 0)"

text \<open>The ordinal of a date, with 1 January of year 1 as day 1, a Monday.\<close>

definition ymd2ord :: "date \<Rightarrow> nat" where
  "ymd2ord d = days_before_year (d_year d) + days_before_month (d_year d) (d_month d) + d_day d"

definition weekday :: "date \<Rightarrow> nat" where
  "weekday d = (ymd2ord d + 6) mod 7"

definition weekday_names :: "string list" where
  "weekday_names =
     [''Monday'', ''Tuesday'', ''Wednesday'', ''Thursday'', ''Friday'', ''Saturday'',
      ''Sunday'']"

definition month_names :: "string list" where
  "month_names =
     [''January'', ''February'', ''March'', ''April'', ''May'', ''June'', ''July'',
      ''August'', ''September'', ''October'', ''November'', ''December'']"

definition c_strftime_A :: "date \<Rightarrow> string" where
  "c_strftime_A d = weekday_names ! weekday d"

definition c_strftime_B :: "date \<Rightarrow> string" where
  "c_strftime_B d = (if 1 \<le> d_month d \<and> d_month d \<le> 12 then month_names ! (d_month d - 1) else [])"

subsection \<open>strptime\<close>

text \<open>
  \<^verbatim>\<open>strptime\<close> turns the format into a regular expression, matches it against
  the start of the string ignoring case, and raises ValueError when nothing matches,
  when the match leaves part of the string unread, or when the fields are not a
  date of the calendar.  The matcher below lists the matches of a directive in
  the order in which the regular expression tries them, so that the head of the
  list of complete matches is the match the expression finds.
\<close>

datatype directive = DY | Dm | Dd | DB | Db | DA | DWs | DLit char | DBad

datatype field = FYear nat | FMonth nat | FDay nat | FNone

fun fmt_tokens :: "string \<Rightarrow> directive list" where
  "fmt_tokens [] = []"
| "fmt_tokens [c] = (if c = CHR ''%'' then [DBad] else if is_space c then [DWs] else [DLit c])"
| "fmt_tokens (c # c' # cs) =
     (if c = CHR ''%'' then
        (if c' = CHR ''Y'' then DY else if c' = CHR ''m'' then Dm
         else if c' = CHR ''d'' then Dd else if c' = CHR ''B'' then DB
         else if c' = CHR ''b'' then Db else if c' = CHR ''A'' then DA else DBad)
        # fmt_tokens cs
      else if is_space c then
        (if is_space c' then fmt_tokens (c' # cs) else DWs # fmt_tokens (c' # cs))
      else DLit c # fmt_tokens (c' # cs))"

definition in_range :: "char \<Rightarrow> nat \<Rightarrow> nat \<Rightarrow> bool" where
  "in_range c lo hi = (48 + lo \<le> (of_char c :: nat) \<and> (of_char c :: nat) \<le> 48 + hi)"

definition digit_val :: "char \<Rightarrow> nat" where
  "digit_val c = of_char c - 48"

text \<open>The alternatives \<^verbatim>\<open>[a-b][c-d]\<close> and \<^verbatim>\<open>[a-b]\<close> of a numeric directive.\<close>

fun two_digits :: "nat \<Rightarrow> nat \<Rightarrow> nat \<Rightarrow> nat \<Rightarrow> string \<Rightarrow> (nat \<times> string) list" where
  "two_digits a b c d (x # y # r) =
     (if in_range x a b \<and> in_range y c d then [(10 * digit_val x + digit_val y, r)] else [])"
| "two_digits a b c d s = []"

fun one_digit :: "nat \<Rightarrow> nat \<Rightarrow> string \<Rightarrow> (nat \<times> string) list" where
  "one_digit a b (x # r) = (if in_range x a b then [(digit_val x, r)] else [])"
| "one_digit a b [] = []"

fun four_digits :: "string \<Rightarrow> (nat \<times> string) list" where
  "four_digits (w # x # y # z # r) =
     (if in_range w 0 9 \<and> in_range x 0 9 \<and> in_range y 0 9 \<and> in_range z 0 9
      then [(1000 * digit_val w + 100 * digit_val x + 10 * digit_val y + digit_val z, r)]
      else [])"
| "four_digits s = []"

definition to_lower :: "char \<Rightarrow> char" where
  "to_lower c = (let n = of_char c :: nat in if 65 \<le> n \<and> n \<le> 90 then char_of (n + 32) else c)"

text \<open>The names that start the string, ignoring case, each with its number from 1.\<close>

definition name_alts :: "string list \<Rightarrow> string \<Rightarrow> (nat \<times> string) list" where
  "name_alts names s =
     map (\<lambda>(i, n). (Suc i, drop (length n) s))
       (filter (\<lambda>(i, n). prefix (map to_lower n) (map to_lower s)) (enumerate 0 names))"

text \<open>\<^verbatim>\<open>\s+\<close>: one or more white space characters, as many as possible first.\<close>

definition ws_alts :: "string \<Rightarrow> string list" where
  "ws_alts s = map (\<lambda>k. drop k s) (rev [1..<Suc (length (takeWhile is_space s))])"

fun match_directive :: "directive \<Rightarrow> string \<Rightarrow> (field \<times> string) list" where
  "match_directive DY s = map (\<lambda>(n, r). (FYear n, r)) (four_digits s)"
| "match_directive Dm s =
     map (\<lambda>(n, r). (FMonth n, r))
       (two_digits 1 1 0 2 s @ two_digits 0 0 1 9 s @ one_digit 1 9 s)"
| "match_directive Dd s =
     map (\<lambda>(n, r). (FDay n, r))
       (two_digits 3 3 0 1 s @ two_digits 1 2 0 9 s @ two_digits 0 0 1 9 s @
        one_digit 1 9 s @
        (case s of [] \<Rightarrow> [] | x # r \<Rightarrow> if x = CHR '' '' then one_digit 1 9 r else []))"
| "match_directive DB s = map (\<lambda>(n, r). (FMonth n, r)) (name_alts month_names s)"
| "match_directive Db s =
     map (\<lambda>(n, r). (FMonth n, r)) (name_alts (map (take 3) month_names) s)"
| "match_directive DA s = map (\<lambda>(n, r). (FNone, r)) (name_alts weekday_names s)"
| "match_directive DWs s = map (\<lambda>r. (FNone, r)) (ws_alts s)"
| "match_directive (DLit c) s =
     (case s of [] \<Rightarrow> [] | x # r \<Rightarrow> if to_lower x = to_lower c then [(FNone, r)] else [])"
| "match_directive DBad s = []"

fun match_seq :: "directive list \<Rightarrow> string \<Rightarrow> (field list \<times> string) list" where
  "match_seq [] s = [([], s)]"
| "match_seq (d # ds) s =
     concat (map (\<lambda>(f, r). map (\<lambda>(fs, r'). (f # fs, r')) (match_seq ds r))
               (match_directive d s))"

fun set_field :: "field \<Rightarrow> date \<Rightarrow> date" where
  "set_field (FYear n) d = d\<lparr>d_year := n\<rparr>"
| "set_field (FMonth n) d = d\<lparr>d_month := n\<rparr>"
| "set_field (FDay n) d = d\<lparr>d_day := n\<rparr>"
| "set_field FNone d = d"

definition c_strptime :: "string \<Rightarrow> string \<Rightarrow> date option" where
  "c_strptime s fmt =
     (let toks = fmt_tokens fmt
      in if DBad \<in> set toks then None
         else (case match_seq toks s of
                 [] \<Rightarrow> None
               | (fs, rest) # _ \<Rightarrow>
                   if rest \<noteq> [] then None
                   else (let d = fold set_field fs \<lparr>d_year = 1900, d_month = 1, d_day = 1\<rparr>
                         in if 1 \<le> d_year d \<and> d_day d \<le> days_in_month (d_year d) (d_month d)
                            then Some d else None)))"

subsection \<open>str()\<close>

definition hex_digit :: "nat \<Rightarrow> char" where
  "hex_digit n = (if n < 10 then char_of (48 + n) else char_of (87 + n))"

definition repr_char :: "char \<Rightarrow> char \<Rightarrow> string" where
  "repr_char q c =
     (let n = of_char c :: nat
      in if c = q \<or> n = 92 then [CHR 0x5C, c]
         else if n = 9 then [CHR 0x5C, CHR ''t'']
         else if n = 10 then [CHR 0x5C, CHR ''n'']
         else if n = 13 then [CHR 0x5C, CHR ''r'']
         else if n < 32 \<or> (127 \<le> n \<and> n \<le> 160) \<or> n = 173
         then [CHR 0x5C, CHR ''x'', hex_digit (n div 16), hex_digit (n mod 16)]
         else [c])"

definition repr_str :: "string \<Rightarrow> string" where
  "repr_str s =
     (let q = (if CHR 0x27 \<in> set s \<and> CHR 0x22 \<notin> set s then CHR 0x22 else CHR 0x27)
      in [q] @ concat (map (repr_char q) s) @ [q])"

definition show_int :: "int \<Rightarrow> string" where
  "show_int n = (if n < 0 then ''-'' @ show_nat (nat (- n)) else show_nat (nat n))"

fun c_repr :: "json \<Rightarrow> string" where
  "c_repr JNull = ''None''"
| "c_repr (JBool b) = (if b then ''True'' else ''False'')"
| "c_repr (JInt n) = show_int n"
| "c_repr (JStr s) = repr_str s"
| "c_repr (JList xs) = ''['' @ join_strs '', '' (map c_repr xs) @ '']''"
| "c_repr (JDict kvs) =
     ''{'' @ join_strs '', '' (map (\<lambda>(k, v). repr_str k @ '': '' @ c_repr v) kvs) @ ''}''"

definition c_str :: "json \<Rightarrow> string" where
  "c_str v = (case v of JStr s \<Rightarrow> s | _ \<Rightarrow> c_repr v)"

definition c_lib :: pylib where
  "c_lib = \<lparr>strptime = c_strptime, strftime_A = c_strftime_A, strftime_B = c_strftime_B,
            str_of = c_str\<rparr>"

text \<open>An environment in which the logo exists and every write succeeds.\<close>

definition quiet_env :: env where
  "quiet_env = \<lparr>path_exists = (\<lambda>p. Inr True), write_svg = (\<lambda>i doc. None),
                write_content = (\<lambda>s. None)\<rparr>"

section \<open>The digest rules of the specification\<close>

text \<open>
  The Date Normalizer and the line of one event as the specification words them,
  over the strings of the fields (the empty string for a field that is not
  present).  These are compared with \<^verbatim>\<open>generate_content_txt\<close> below.
\<close>

definition normalize_date :: "pylib \<Rightarrow> string \<Rightarrow> string \<times> string" where
  "normalize_date lib s =
     (if s = [] then ([], [])
      else (case find (\<lambda>fmt. strptime lib s fmt \<noteq> None) date_formats of
              None \<Rightarrow> ([], s)
            | Some fmt \<Rightarrow>
                (case strptime lib s fmt of
                   None \<Rightarrow> ([], s)
                 | Some d \<Rightarrow>
                     (strftime_A lib d, strftime_B lib d @ '' '' @ show_nat (d_day d)))))"

definition digest_line :: "pylib \<Rightarrow> string \<Rightarrow> string \<Rightarrow> string \<Rightarrow> string \<Rightarrow> string" where
  "digest_line lib title date location host =
     (case normalize_date lib date of (day_name, formatted_date) \<Rightarrow>
        (if day_name \<noteq> [] \<and> formatted_date \<noteq> []
         then day_name @ '', '' @ formatted_date @ '': '' @ title
         else if formatted_date \<noteq> [] then formatted_date @ '': '' @ title
         else title) @
        (if location \<noteq> [] then '' @ '' @ location else []) @
        (if host \<noteq> [] then '' ('' @ host @ '')'' else []))"

text \<open>The string of a field: empty when the field is absent or null.\<close>

definition str_field :: "pydict \<Rightarrow> string \<Rightarrow> string" where
  "str_field e k = (case map_of e k of Some (JStr s) \<Rightarrow> s | _ \<Rightarrow> [])"

text \<open>
  An event as the digest reads it: the title is a string or its key is missing,
  and date, location and host are absent, null or strings.
\<close>

definition digest_record :: "pydict \<Rightarrow> bool" where
  "digest_record e =
     ((case map_of e ''title'' of None \<Rightarrow> True | Some (JStr s) \<Rightarrow> True | _ \<Rightarrow> False) \<and>
      optional_str (map_of e ''date'') \<and> optional_str (map_of e ''location'') \<and>
      optional_str (map_of e ''host''))"

definition title_text :: "pydict \<Rightarrow> string" where
  "title_text e = (case map_of e ''title'' of None \<Rightarrow> ''Event'' | Some (JStr s) \<Rightarrow> s | _ \<Rightarrow> [])"

text \<open>More example records.\<close>

definition calgary_event :: pydict where
  "calgary_event = [(''title'', JStr ''Talk''), (''date'', JStr ''2024-12-05''),
     (''location'', JStr ''Calgary''), (''host'', JStr ''Dr. X'')]"

definition untitled_event :: pydict where
  "untitled_event = [(''title'', JStr []), (''date'', JStr ''2024-12-05'')]"

definition numeric_date_event :: pydict where
  "numeric_date_event = [(''title'', JStr ''Dig''), (''date'', JInt 20241205)]"

section \<open>Facts about the string operations\<close>

lemma before_first_Some:
  "before_first p s = Some pre \<Longrightarrow> \<exists>suf. s = pre @ p @ suf"
proof (induction s arbitrary: pre)
  case Nil
  then show ?case by (simp split: if_splits)
next
  case (Cons c cs)
  show ?case
  proof (cases "prefix p (c # cs)")
    case True
    with Cons.prems show ?thesis by (auto simp: prefix_def)
  next
    case False
    with Cons.prems obtain pre' where p: "before_first p cs = Some pre'" "pre = c # pre'"
      by auto
    from Cons.IH[OF p(1)] p(2) show ?thesis by auto
  qed
qed

lemma before_first_leftmost:
  "before_first p s = Some pre \<Longrightarrow> s = a @ p @ b \<Longrightarrow> length pre \<le> length a"
proof (induction s arbitrary: pre a)
  case Nil
  then show ?case by (simp split: if_splits)
next
  case (Cons c cs)
  show ?case
  proof (cases "prefix p (c # cs)")
    case True
    with Cons.prems(1) show ?thesis by simp
  next
    case False
    with Cons.prems(1) obtain pre' where p: "before_first p cs = Some pre'" "pre = c # pre'"
      by auto
    from False Cons.prems(2) have "a \<noteq> []" by (auto simp: prefix_def)
    then obtain a' where a: "a = c # a'" "cs = a' @ p @ b"
      using Cons.prems(2) by (cases a) auto
    from Cons.IH[OF p(1) a(2)] p(2) a(1) show ?thesis by simp
  qed
qed

lemma before_first_None:
  "before_first p s = None \<Longrightarrow> s \<noteq> a @ p @ b"
proof (induction s arbitrary: a)
  case Nil
  then show ?case by (auto split: if_splits)
next
  case (Cons c cs)
  from Cons.prems have np: "\<not> prefix p (c # cs)" and r: "before_first p cs = None"
    by (auto split: if_splits)
  show ?case
  proof
    assume e: "c # cs = a @ p @ b"
    with np have "a \<noteq> []" by (auto simp: prefix_def)
    then obtain a' where "a = c # a'" "cs = a' @ p @ b" using e by (cases a) auto
    with Cons.IH[OF r] show False by blast
  qed
qed

lemma py_in_iff: "py_in p s \<longleftrightarrow> (\<exists>a b. s = a @ p @ b)"
proof
  assume "py_in p s"
  then obtain pre where "before_first p s = Some pre" by (auto simp: py_in_def)
  from before_first_Some[OF this] show "\<exists>a b. s = a @ p @ b" by blast
next
  assume "\<exists>a b. s = a @ p @ b"
  then show "py_in p s"
    unfolding py_in_def using before_first_None by blast
qed

lemma split_head_occurs:
  "py_in p s \<Longrightarrow> \<exists>suf. s = split_head p s @ p @ suf"
  by (auto simp: py_in_def split_head_def dest: before_first_Some)

lemma split_head_leftmost:
  "s = a @ p @ b \<Longrightarrow> length (split_head p s) \<le> length a"
proof (cases "before_first p s")
  case None
  assume "s = a @ p @ b"
  with before_first_None[OF None] show ?thesis by blast
next
  case (Some pre)
  assume "s = a @ p @ b"
  from before_first_leftmost[OF Some this] Some show ?thesis
    by (simp add: split_head_def)
qed

lemma rstrip_decomp: "xs = rev (dropWhile P (rev xs)) @ rev (takeWhile P (rev xs))"
proof -
  have "rev xs = takeWhile P (rev xs) @ dropWhile P (rev xs)"
    by (simp only: takeWhile_dropWhile_id)
  then have "rev (rev xs) = rev (takeWhile P (rev xs) @ dropWhile P (rev xs))"
    by (rule arg_cong)
  then show ?thesis by (simp only: rev_rev_ident rev_append)
qed

lemma takeWhile_all: "\<forall>c \<in> set (takeWhile P xs). P c"
  using set_takeWhileD by fastforce

lemma takeWhile_rev_all: "\<forall>c \<in> set (rev (takeWhile P xs)). P c"
  using set_takeWhileD by fastforce

lemma py_strip_decomp:
  "\<exists>l r. s = l @ py_strip s @ r \<and> (\<forall>c \<in> set l. is_space c) \<and> (\<forall>c \<in> set r. is_space c)"
proof -
  let ?l = "takeWhile is_space s"
  let ?m = "dropWhile is_space s"
  let ?r = "rev (takeWhile is_space (rev ?m))"
  have m: "?m = py_strip s @ ?r"
    unfolding py_strip_def by (rule rstrip_decomp)
  have "s = ?l @ ?m" by simp
  with m have "s = ?l @ py_strip s @ ?r" by simp
  moreover have "\<forall>c \<in> set ?l. is_space c" by (rule takeWhile_all)
  moreover have "\<forall>c \<in> set ?r. is_space c" by (rule takeWhile_rev_all)
  ultimately show ?thesis by blast
qed

lemma py_strip_no_leading: "py_strip s \<noteq> [] \<Longrightarrow> \<not> is_space (hd (py_strip s))"
proof -
  assume ne: "py_strip s \<noteq> []"
  let ?m = "dropWhile is_space s"
  have m: "?m = py_strip s @ rev (takeWhile is_space (rev ?m))"
    unfolding py_strip_def by (rule rstrip_decomp)
  have mne: "?m \<noteq> []"
  proof
    assume "?m = []"
    with m have "py_strip s @ rev (takeWhile is_space (rev ?m)) = []" by (simp only:)
    with ne show False by simp
  qed
  then have hm: "\<not> is_space (hd ?m)" by (rule hd_dropWhile)
  from m ne have "hd ?m = hd (py_strip s)" by (metis hd_append2)
  with hm show ?thesis by simp
qed

lemma py_strip_no_trailing: "py_strip s \<noteq> [] \<Longrightarrow> \<not> is_space (last (py_strip s))"
proof -
  assume ne: "py_strip s \<noteq> []"
  let ?d = "dropWhile is_space (rev (dropWhile is_space s))"
  from ne have d: "?d \<noteq> []" by (simp add: py_strip_def)
  then have "\<not> is_space (hd ?d)" by (rule hd_dropWhile)
  moreover have "last (py_strip s) = hd ?d"
    using d by (simp add: py_strip_def last_rev)
  ultimately show ?thesis by simp
qed

text \<open>
  C4.  For every date string, \<^verbatim>\<open>parse_date_without_time\<close> returns the empty
  string on the empty string; otherwise the trimmed prefix before the leftmost
  \<^verbatim>\<open>"T"\<close> if one occurs, else before the leftmost \<^verbatim>\<open>" at "\<close> if one occurs, else
  before the leftmost \<^verbatim>\<open>" @ "\<close> if one occurs, else the trimmed string itself.
  Here "occurs" is the existence of a decomposition \<open>s = a @ p @ b\<close>, "the prefix
  before the leftmost occurrence" is a prefix followed by the pattern and no longer
  than any other such prefix, and "trimmed" means that only white space was taken
  off both ends and none is left there.  The three examples of the specification
  are evaluated.
\<close>

theorem parse_date_without_time_spec:
  fixes s :: string
  defines "occurs \<equiv> (\<lambda>p. \<exists>a b. s = a @ p @ b)"
  defines "cutp \<equiv> (\<lambda>p pre. (\<exists>suf. s = pre @ p @ suf) \<and>
                    (\<forall>a b. s = a @ p @ b \<longrightarrow> length pre \<le> length a))"
  defines "trimmed \<equiv> (\<lambda>t r. (\<exists>l u. t = l @ r @ u \<and> (\<forall>c \<in> set l. is_space c) \<and>
                    (\<forall>c \<in> set u. is_space c)) \<and>
                    (r \<noteq> [] \<longrightarrow> \<not> is_space (hd r) \<and> \<not> is_space (last r)))"
  shows "parse_date_without_time (JStr []) = Inr (JStr []) \<and>
         (\<exists>r. parse_date_without_time (JStr s) = Inr (JStr r) \<and>
           (if occurs ''T'' then \<exists>pre. cutp ''T'' pre \<and> trimmed pre r
            else if occurs '' at '' then \<exists>pre. cutp '' at '' pre \<and> trimmed pre r
            else if occurs '' @ '' then \<exists>pre. cutp '' @ '' pre \<and> trimmed pre r
            else trimmed s r)) \<and>
         parse_date_without_time (JStr ''2024-12-05T18:00:00'') = Inr (JStr ''2024-12-05'') \<and>
         parse_date_without_time (JStr ''Jan 10 at 7pm'') = Inr (JStr ''Jan 10'') \<and>
         parse_date_without_time (JStr ''2024-12-05'') = Inr (JStr ''2024-12-05'')"
proof -
  have e0: "parse_date_without_time (JStr []) = Inr (JStr [])" by simp
  have tr: "trimmed t (py_strip t)" for t
    unfolding trimmed_def
    using py_strip_decomp[of t] py_strip_no_leading[of t] py_strip_no_trailing[of t]
    by blast
  have ct: "py_in p s \<Longrightarrow> cutp p (split_head p s)" for p
    unfolding cutp_def using split_head_occurs[of p s] split_head_leftmost[of s _ p]
    by blast
  have oc: "occurs p \<longleftrightarrow> py_in p s" for p
    unfolding occurs_def by (simp add: py_in_iff)
  have g: "\<exists>r. parse_date_without_time (JStr s) = Inr (JStr r) \<and>
           (if occurs ''T'' then \<exists>pre. cutp ''T'' pre \<and> trimmed pre r
            else if occurs '' at '' then \<exists>pre. cutp '' at '' pre \<and> trimmed pre r
            else if occurs '' @ '' then \<exists>pre. cutp '' @ '' pre \<and> trimmed pre r
            else trimmed s r)"
  proof (cases "s = []")
    case True
    have e: "\<not> occurs ''T''" "\<not> occurs '' at ''" "\<not> occurs '' @ ''"
      unfolding occurs_def using True by auto
    have "trimmed [] []" unfolding trimmed_def by simp
    with True e show ?thesis by simp
  next
    case False
    then have r: "parse_date_without_time (JStr s) =
        Inr (JStr (py_strip (cut_at_first_pattern time_patterns s)))"
      by simp
    show ?thesis
      unfolding r oc
      using ct[of "''T''"] ct[of "'' at ''"] ct[of "'' @ ''"] tr
      by (auto simp: time_patterns_def)
  qed
  have e1: "parse_date_without_time (JStr ''2024-12-05T18:00:00'') = Inr (JStr ''2024-12-05'')"
    by (simp add: time_patterns_def py_in_def split_head_def py_strip_def is_space_def)
  have e2: "parse_date_without_time (JStr ''Jan 10 at 7pm'') = Inr (JStr ''Jan 10'')"
    by (simp add: time_patterns_def py_in_def split_head_def py_strip_def is_space_def)
  have e3: "parse_date_without_time (JStr ''2024-12-05'') = Inr (JStr ''2024-12-05'')"
    by (simp add: time_patterns_def py_in_def split_head_def py_strip_def is_space_def)
  from e0 g e1 e2 e3 show ?thesis by blast
qed


theorem parse_date_without_time_spec_witness:
  "(\<exists>a b. ''Jan 10 at 7pm'' = a @ '' at '' @ b) \<and>
   \<not> (\<exists>a b. ''Jan 10 at 7pm'' = a @ ''T'' @ b) \<and>
   parse_date_without_time (JStr ''Jan 10 at 7pm'') = Inr (JStr ''Jan 10'')"
proof -
  have a: "\<exists>a b. ''Jan 10 at 7pm'' = a @ '' at '' @ b"
    unfolding py_in_iff[symmetric] by (simp add: py_in_def)
  have b: "\<not> (\<exists>a b. ''Jan 10 at 7pm'' = a @ ''T'' @ b)"
    unfolding py_in_iff[symmetric] by (simp add: py_in_def)
  from parse_date_without_time_spec[of "''Jan 10 at 7pm''"]
  have "parse_date_without_time (JStr ''Jan 10 at 7pm'') = Inr (JStr ''Jan 10'')"
    by blast
  with a b show ?thesis by blast
qed

section \<open>Floating point: the rounding error\<close>

lemma pow2_pos: "0 < pow2 i"
  by (simp add: pow2_def)

lemma pow2_diff:
  assumes "0 \<le> k"
  shows "pow2 (k - int c) = 2 ^ nat k / 2 ^ c"
proof (cases "int c \<le> k")
  case True
  then have "nat k = nat (k - int c) + c" by simp
  then have "(2::rat) ^ nat k = 2 ^ nat (k - int c) * 2 ^ c" by (simp only: power_add)
  with True show ?thesis by (simp add: pow2_def)
next
  case False
  with assms have e: "nat k + nat (int c - k) = c" by simp
  have "(2::rat) ^ (nat k + nat (int c - k)) = 2 ^ nat k * 2 ^ nat (int c - k)"
    by (rule power_add)
  then have "(2::rat) ^ c = 2 ^ nat k * 2 ^ nat (int c - k)" by (simp only: e)
  moreover from False have "pow2 (k - int c) = 1 / 2 ^ nat (int c - k)"
    by (simp add: pow2_def)
  ultimately show ?thesis by simp
qed

lemma pow2_shift:
  assumes "0 \<le> k"
  shows "pow2 (k - 52) = 2 ^ nat k / 2 ^ 52"
  using pow2_diff[OF assms, of 52] by simp

lemma nearest_int:
  fixes m :: rat
  defines "f \<equiv> \<lfloor>m\<rfloor>"
  defines "r \<equiv> m - of_int f"
  defines "n \<equiv> (if r < 1 / 2 then f else if 1 / 2 < r then f + 1
                  else if even f then f else f + 1)"
  shows "\<bar>of_int n - m\<bar> \<le> 1 / 2"
proof -
  have "of_int f \<le> m" "m < of_int f + 1" unfolding f_def by linarith+
  then have "0 \<le> r" "r < 1" unfolding r_def by simp_all
  then show ?thesis unfolding n_def using r_def by (auto simp: abs_if)
qed

lemma round_double_error:
  assumes "1 \<le> x"
  shows "\<bar>round_double x - x\<bar> \<le> x / 2 ^ 53"
proof -
  define k where "k = bitlen \<lfloor>x\<rfloor> - 1"
  define P where "P = pow2 (k - 52)"
  define m where "m = x / P"
  define n where "n = (if m - of_int \<lfloor>m\<rfloor> < 1 / 2 then \<lfloor>m\<rfloor>
      else if 1 / 2 < m - of_int \<lfloor>m\<rfloor> then \<lfloor>m\<rfloor> + 1
      else if even \<lfloor>m\<rfloor> then \<lfloor>m\<rfloor> else \<lfloor>m\<rfloor> + 1)"
  from assms have fl: "0 < \<lfloor>x\<rfloor>" by simp
  from bitlen_bounds[OF fl] have b: "2 ^ nat k \<le> \<lfloor>x\<rfloor>" by (simp add: k_def)
  have k0: "0 \<le> k"
    using fl bitlen_eq_zero_iff[of "\<lfloor>x\<rfloor>"] bitlen_nonneg[of "\<lfloor>x\<rfloor>"]
    by (simp add: k_def)
  from b have "(of_int (2 ^ nat k) :: rat) \<le> of_int \<lfloor>x\<rfloor>" by (simp only: of_int_le_iff)
  also have "\<dots> \<le> x" by simp
  finally have kx: "(2::rat) ^ nat k \<le> x" by simp
  have P: "P = 2 ^ nat k / 2 ^ 52" unfolding P_def by (rule pow2_shift[OF k0])
  have Ppos: "0 < P" unfolding P_def by (rule pow2_pos)
  have rd: "round_double x = of_int n * P"
    using assms unfolding n_def m_def P_def k_def round_double_def ilog2_def Let_def
    by simp
  have x: "x = m * P" using Ppos by (simp add: m_def)
  have "\<bar>of_int n - m\<bar> \<le> 1 / 2" unfolding n_def by (rule nearest_int)
  then have "\<bar>of_int n - m\<bar> * P \<le> 1 / 2 * P"
    using Ppos by (simp only: mult_le_cancel_right_pos)
  moreover have "\<bar>round_double x - x\<bar> = \<bar>of_int n - m\<bar> * P"
  proof -
    have "(of_int n - m) * P = of_int n * P - m * P" by (simp add: algebra_simps)
    with x rd have "round_double x - x = (of_int n - m) * P" by simp
    then show ?thesis using Ppos by (simp add: abs_mult)
  qed
  ultimately have "\<bar>round_double x - x\<bar> \<le> 1 / 2 * P" by simp
  also have "\<dots> = 2 ^ nat k / 2 ^ 53" by (simp add: P)
  also have "\<dots> \<le> x / 2 ^ 53" using kx by (simp add: divide_right_mono)
  finally show ?thesis .
qed

lemma round_double_near:
  assumes "1 \<le> x" and "x \<le> 2048"
  shows "x - 1 / 1000000 \<le> round_double x" and "round_double x \<le> x + 1 / 1000000"
proof -
  from round_double_error[OF assms(1)] have e: "\<bar>round_double x - x\<bar> \<le> x / 2 ^ 53" .
  from assms(2) have "x / 2 ^ 53 \<le> 2048 / 2 ^ 53" by (simp add: divide_right_mono)
  also have "\<dots> \<le> (1 / 1000000 :: rat)" by simp
  finally have "\<bar>round_double x - x\<bar> \<le> 1 / 1000000" using e by linarith
  then show "x - 1 / 1000000 \<le> round_double x" and "round_double x \<le> x + 1 / 1000000"
    by linarith+
qed


lemma round_double_values:
  "round_double 512 = 512" "round_double 60 = 60" "round_double 100 = 100"
  "round_double (40 * round_double (6 / 5)) = 48"
  by code_simp+

lemma float_sum_snoc: "float_sum (hs @ [h]) = round_double (float_sum hs + h)"
  by (simp add: float_sum_def)

section \<open>The Layout Engine\<close>

lemma event_record_field:
  "event_record e \<Longrightarrow> k \<in> set field_order \<Longrightarrow> optional_str (map_of e k)"
  by (simp add: event_record_def list_all_iff)

lemma optional_str_present:
  "optional_str (map_of e k) \<Longrightarrow> truthy (dict_get e k) = present e k"
  by (cases "map_of e k"; cases "the (map_of e k)")
     (simp_all add: optional_str_def dict_get_def present_def)

lemma optional_str_parse:
  "optional_str (map_of e k) \<Longrightarrow> \<exists>d. parse_date_without_time (dict_get e k) = Inr d"
  by (cases "map_of e k"; cases "the (map_of e k)")
     (simp_all add: optional_str_def dict_get_def)

lemma parse_str: "\<exists>t. parse_date_without_time (JStr s) = Inr (JStr t)"
  by simp

lemma collect_content_blocks:
  assumes "parse_date_without_time (dict_get e ''date'') = Inr d"
  shows "\<exists>bs tot. collect_content e = Inr (bs, tot) \<and>
     map (\<lambda>b. (ce_text b, ce_font_size b, ce_font_weight b)) bs =
     map (\<lambda>k. (display_text e k, field_font_size k, field_font_weight k)) (truthy_fields e)"
  using assms
  by (simp add: collect_content_def Let_def append_block_def truthy_fields_def field_order_def
        display_text_def field_font_size_def field_font_weight_def)


lemma truthy_fields_present:
  assumes "event_record e"
  shows "truthy_fields e = filter (present e) field_order"
  unfolding truthy_fields_def
  by (rule filter_cong[OF refl]) (simp add: optional_str_present event_record_field[OF assms])

lemma offsets_ok_empty: "offsets_ok ([], 0)"
  by (simp add: offsets_ok_def float_sum_def)

lemma offsets_ok_append: "offsets_ok st \<Longrightarrow> offsets_ok (append_block t fs fw st)"
  by (cases st)
     (auto simp: offsets_ok_def append_block_def nth_append block_height_def
        line_height_multiplier_def less_Suc_eq float_sum_snoc)

lemma offsets_ok_cond:
  "offsets_ok st \<Longrightarrow> offsets_ok (if c then append_block t fs fw st else st)"
  by (simp add: offsets_ok_append)

lemma collect_content_offsets:
  assumes "collect_content e = Inr st"
  shows "offsets_ok st"
proof -
  define st1 where "st1 = (if truthy (dict_get e ''title'')
     then append_block (dict_get e ''title'') 72 (Some ''bold'') ([], 0) else ([], 0))"
  define st2 where "st2 = (if truthy (dict_get e ''subtitle'')
     then append_block (dict_get e ''subtitle'') 48 None st1 else st1)"
  define st3 where "st3 = (if truthy (dict_get e ''host'')
     then append_block (dict_get e ''host'') 40 None st2 else st2)"
  have ok3: "offsets_ok st3"
    unfolding st3_def st2_def st1_def by (intro offsets_ok_cond offsets_ok_empty)
  from assms obtain st4 where
    st4: "(if truthy (dict_get e ''date'')
           then (case parse_date_without_time (dict_get e ''date'') of
                   Inl x \<Rightarrow> Inl x | Inr d \<Rightarrow> Inr (append_block d 40 None st3))
           else Inr st3) = Inr st4"
    and st: "st = (if truthy (dict_get e ''location'')
                   then append_block (dict_get e ''location'') 40 None st4 else st4)"
    unfolding collect_content_def Let_def st3_def st2_def st1_def
    by (auto split: sum.splits)
  from st4 ok3 have "offsets_ok st4"
    by (auto split: if_splits sum.splits intro: offsets_ok_append)
  then show ?thesis unfolding st by (rule offsets_ok_cond)
qed

lemma generate_svg_Inr:
  assumes "px lp = Inr found" and "collect_content e = Inr (bs, tot)"
  shows "\<exists>doc. snd (generate_svg px e lp) = Inr doc \<and>
     svg_elements doc =
       [Rect \<lparr>rect_x = 0, rect_y = 0, rect_width = 1024, rect_height = 1024,
               rect_fill = ''#000000''\<rparr>,
        Image \<lparr>image_href = lp, image_x = 40, image_y = 40, image_width = 120,
                image_height = 120, image_preserveAspectRatio = ''xMidYMid meet''\<rparr>,
        Text \<lparr>text_x = 512, text_y = 100, text_text = JStr ''Palaeo Events!'',
               text_font_size = 64, text_font_weight = Some ''bold'',
               text_fill = ''#FFFFFF'', text_anchor = ''middle'',
               text_dominant_baseline = Some ''middle'', text_rendering = None\<rparr>] @
       map (\<lambda>b. Text \<lparr>text_x = 512,
              text_y = round_double (round_double (round_double (1024 - tot) / 2) +
                                     ce_y_offset b),
              text_text = ce_text b, text_font_size = ce_font_size b,
              text_font_weight = ce_font_weight b, text_fill = ce_fill b,
              text_anchor = ''middle'', text_dominant_baseline = None,
              text_rendering = Some ''optimizeLegibility''\<rparr>) bs"
  using assms
  by (simp add: generate_svg_def Let_def background_def logo_def events_text_def
        TEXT_COLOUR_def round_double_values)

lemma date_ok_parse:
  "\<not> truthy v \<or> (\<exists>s. v = JStr s) \<Longrightarrow> \<exists>d. parse_date_without_time v = Inr d"
  by (cases v) auto

lemma parse_leading_T:
  "parse_date_without_time (JStr (CHR ''T'' # rest)) = Inr (JStr [])"
  by (simp add: time_patterns_def py_in_def split_head_def py_strip_def)

lemma meeting_content:
  "collect_content meeting_event =
     Inr ([\<lparr>ce_text = JStr ''Monthly Meeting'', ce_font_size = 48, ce_font_weight = None,
             ce_fill = ''#FFFFFF'', ce_y_offset = 0\<rparr>,
           \<lparr>ce_text = JStr ''Dr. Smith'', ce_font_size = 40, ce_font_weight = None,
             ce_fill = ''#FFFFFF'', ce_y_offset = 2026619832316723 / 35184372088832\<rparr>,
           \<lparr>ce_text = JStr ''2024-12-05'', ce_font_size = 40, ce_font_weight = None,
             ce_fill = ''#FFFFFF'', ce_y_offset = 3715469692580659 / 35184372088832\<rparr>],
          5404319552844595 / 35184372088832)"
  by code_simp

lemma meeting_ys:
  "round_double (round_double (round_double (1024 - 5404319552844595 / 35184372088832) / 2) + 0)
     = 7656119366529843 / 17592186044416"
  "round_double (round_double (round_double (1024 - 5404319552844595 / 35184372088832) / 2) +
                 2026619832316723 / 35184372088832)
     = 2167357320672051 / 4398046511104"
  "round_double (round_double (round_double (1024 - 5404319552844595 / 35184372088832) / 2) +
                 3715469692580659 / 35184372088832)
     = 2378463553205043 / 4398046511104"
  by code_simp+

lemma height_values:
  "round_double (72 * line_height_multiplier) = 6079859496950169 / 70368744177664"
  "round_double (48 * line_height_multiplier) = 2026619832316723 / 35184372088832"
  "round_double (40 * line_height_multiplier) = 48"
  by code_simp+

lemma add_height_bounds:
  assumes "0 \<le> off" and "off \<le> 1000" and "fs = 72 \<or> fs = 48 \<or> fs = 40"
  shows "off + 47 \<le> round_double (off + round_double (of_nat fs * line_height_multiplier))"
    and "round_double (off + round_double (of_nat fs * line_height_multiplier)) \<le> off + 88"
proof -
  define h where "h = round_double (of_nat fs * line_height_multiplier)"
  from assms(3) have hb: "48 \<le> h \<and> h \<le> 87"
    unfolding h_def by (auto simp: height_values)
  with assms have "1 \<le> off + h" "off + h \<le> 2048" by simp_all
  from round_double_near[OF this] hb
  show "off + 47 \<le> round_double (off + round_double (of_nat fs * line_height_multiplier))"
    and "round_double (off + round_double (of_nat fs * line_height_multiplier)) \<le> off + 88"
    unfolding h_def[symmetric] by linarith+
qed

lemma cond_append_bounds:
  assumes "0 \<le> snd st" and "snd st \<le> hi" and "hi \<le> 1000"
    and "fs = 72 \<or> fs = 48 \<or> fs = 40"
  shows "0 \<le> snd (if c then append_block t fs fw st else st)"
    and "snd (if c then append_block t fs fw st else st) \<le> hi + 88"
proof -
  obtain bs off where st: "st = (bs, off)" by (cases st)
  with assms have o: "0 \<le> off" "off \<le> 1000" by simp_all
  from add_height_bounds[OF o assms(4)] assms(1,2) st
  show "0 \<le> snd (if c then append_block t fs fw st else st)"
    and "snd (if c then append_block t fs fw st else st) \<le> hi + 88"
    by (auto simp: append_block_def)
qed

lemma start_bounds:
  assumes "0 \<le> t" and "t \<le> 500"
  shows "512 - t / 2 - 1 / 100 \<le> round_double (round_double (1024 - t) / 2)"
    and "round_double (round_double (1024 - t) / 2) \<le> 512 - t / 2 + 1 / 100"
proof -
  from assms have "1 \<le> 1024 - t" "1024 - t \<le> 2048" by simp_all
  from round_double_near[OF this]
  have a: "1024 - t - 1 / 1000000 \<le> round_double (1024 - t)"
    "round_double (1024 - t) \<le> 1024 - t + 1 / 1000000" .
  with assms have "1 \<le> round_double (1024 - t) / 2" "round_double (1024 - t) / 2 \<le> 2048"
    by simp_all
  from round_double_near[OF this]
  have b: "round_double (1024 - t) / 2 - 1 / 1000000 \<le>
        round_double (round_double (1024 - t) / 2)"
    "round_double (round_double (1024 - t) / 2) \<le>
        round_double (1024 - t) / 2 + 1 / 1000000" .
  from a b show "512 - t / 2 - 1 / 100 \<le> round_double (round_double (1024 - t) / 2)"
    by linarith
  from a b show "round_double (round_double (1024 - t) / 2) \<le> 512 - t / 2 + 1 / 100"
    by linarith
qed

lemma tuesday_content:
  "collect_content tuesday_event =
     Inr ([\<lparr>ce_text = JStr ''Field trip'', ce_font_size = 48, ce_font_weight = None,
             ce_fill = ''#FFFFFF'', ce_y_offset = 0\<rparr>,
           \<lparr>ce_text = JStr [], ce_font_size = 40, ce_font_weight = None,
             ce_fill = ''#FFFFFF'', ce_y_offset = 2026619832316723 / 35184372088832\<rparr>,
           \<lparr>ce_text = JStr ''Calgary'', ce_font_size = 40, ce_font_weight = None,
             ce_fill = ''#FFFFFF'', ce_y_offset = 3715469692580659 / 35184372088832\<rparr>],
          5404319552844595 / 35184372088832)"
  by code_simp

text \<open>
  C1.  For every event record (each of the five fields absent, null or a string),
  once the test for the logo file has returned, \<^verbatim>\<open>generate_svg\<close> returns a
  document whose elements are the black background rectangle of 1024 by 1024, the
  logo image of 120 by 120 at (40, 40) and the bold header \<^verbatim>\<open>Palaeo Events!\<close> of
  size 64 at (512, 100), followed by exactly one text per present field (a
  non-empty string), in the order title, subtitle, host, date, location, with the
  field's text (for the date, the text with its time taken off), font size 72, 48,
  40, 40, 40 and bold weight for the title only.  With no field present the
  document holds the three fixed elements and nothing else.
\<close>

theorem generate_svg_content_blocks:
  fixes e :: pydict
  defines "order \<equiv> [''title'', ''subtitle'', ''host'', ''date'', ''location'']"
  defines "font_size \<equiv> (\<lambda>k. if k = ''title'' then 72 else if k = ''subtitle'' then 48
                          else (40::nat))"
  defines "font_weight \<equiv> (\<lambda>k. if k = ''title'' then Some ''bold'' else None)"
  defines "fixed \<equiv> (\<lambda>lp.
       [Rect \<lparr>rect_x = 0, rect_y = 0, rect_width = 1024, rect_height = 1024,
               rect_fill = ''#000000''\<rparr>,
        Image \<lparr>image_href = lp, image_x = 40, image_y = 40, image_width = 120,
                image_height = 120, image_preserveAspectRatio = ''xMidYMid meet''\<rparr>,
        Text \<lparr>text_x = 512, text_y = 100, text_text = JStr ''Palaeo Events!'',
               text_font_size = 64, text_font_weight = Some ''bold'',
               text_fill = ''#FFFFFF'', text_anchor = ''middle'',
               text_dominant_baseline = Some ''middle'', text_rendering = None\<rparr>])"
  assumes "event_record e" and "px lp = Inr found"
  shows "\<exists>doc ts. snd (generate_svg px e lp) = Inr doc \<and>
      svg_elements doc = fixed lp @ map Text ts \<and>
      map (\<lambda>t. (text_text t, text_font_size t, text_font_weight t)) ts =
        map (\<lambda>k. (display_text e k, font_size k, font_weight k)) (filter (present e) order) \<and>
      ((\<forall>k \<in> set order. \<not> present e k) \<longrightarrow> svg_elements doc = fixed lp)"
proof -
  have o: "order = field_order" by (simp add: order_def field_order_def)
  have fs: "font_size = field_font_size"
    by (rule ext) (simp add: font_size_def field_font_size_def)
  have fw: "font_weight = field_font_weight"
    by (rule ext) (simp add: font_weight_def field_font_weight_def)
  have "''date'' \<in> set field_order" by (simp add: field_order_def)
  from optional_str_parse[OF event_record_field[OF assms(5) this]]
  obtain d where d: "parse_date_without_time (dict_get e ''date'') = Inr d" ..
  from collect_content_blocks[OF d] obtain bs tot where
    cc: "collect_content e = Inr (bs, tot)" and
    bs: "map (\<lambda>b. (ce_text b, ce_font_size b, ce_font_weight b)) bs =
     map (\<lambda>k. (display_text e k, field_font_size k, field_font_weight k)) (truthy_fields e)"
    by blast
  define place where "place = (\<lambda>b::content_element. \<lparr>text_x = 512,
              text_y = round_double (round_double (round_double (1024 - tot) / 2) +
                                     ce_y_offset b),
              text_text = ce_text b, text_font_size = ce_font_size b,
              text_font_weight = ce_font_weight b, text_fill = ce_fill b,
              text_anchor = ''middle'', text_dominant_baseline = None,
              text_rendering = Some ''optimizeLegibility''\<rparr>)"
  from generate_svg_Inr[of px lp found e bs tot, OF assms(6) cc] obtain doc where
    doc: "snd (generate_svg px e lp) = Inr doc" and
    el: "svg_elements doc = fixed lp @ map (\<lambda>b. Text (place b)) bs"
    unfolding fixed_def place_def by blast
  have e1: "svg_elements doc = fixed lp @ map Text (map place bs)"
    using el by (simp add: comp_def)
  have e2: "map (\<lambda>t. (text_text t, text_font_size t, text_font_weight t)) (map place bs) =
        map (\<lambda>k. (display_text e k, font_size k, font_weight k)) (filter (present e) order)"
    using bs by (simp add: comp_def place_def truthy_fields_present[OF assms(5)] o fs fw)
  have e3: "(\<forall>k \<in> set order. \<not> present e k) \<longrightarrow> svg_elements doc = fixed lp"
  proof
    assume "\<forall>k \<in> set order. \<not> present e k"
    then have "filter (present e) order = []" by (simp add: filter_empty_conv)
    with e2 have "map place bs = []" by simp
    with e1 show "svg_elements doc = fixed lp" by simp
  qed
  from doc e1 e2 e3 show ?thesis by blast
qed

theorem generate_svg_content_blocks_witness:
  "event_record talk_event \<and>
   (\<exists>doc ts. snd (generate_svg (\<lambda>p. Inr True) talk_event ''files/APS logo-black.svg'') =
        Inr doc \<and>
      svg_elements doc =
       [Rect \<lparr>rect_x = 0, rect_y = 0, rect_width = 1024, rect_height = 1024,
               rect_fill = ''#000000''\<rparr>,
        Image \<lparr>image_href = ''files/APS logo-black.svg'', image_x = 40, image_y = 40,
                image_width = 120, image_height = 120,
                image_preserveAspectRatio = ''xMidYMid meet''\<rparr>,
        Text \<lparr>text_x = 512, text_y = 100, text_text = JStr ''Palaeo Events!'',
               text_font_size = 64, text_font_weight = Some ''bold'',
               text_fill = ''#FFFFFF'', text_anchor = ''middle'',
               text_dominant_baseline = Some ''middle'', text_rendering = None\<rparr>] @
       map Text ts \<and>
      map (\<lambda>t. (text_text t, text_font_size t, text_font_weight t)) ts =
        [(JStr ''Talk'', 72, Some ''bold''), (JStr ''2024-12-05'', 40, None)])"
proof -
  have h: "event_record talk_event"
    by (simp add: event_record_def talk_event_def field_order_def optional_str_def)
  have r: "map (\<lambda>k. (display_text talk_event k,
                     if k = ''title'' then 72 else if k = ''subtitle'' then 48 else (40::nat),
                     if k = ''title'' then Some ''bold'' else None))
             (filter (present talk_event) [''title'', ''subtitle'', ''host'', ''date'', ''location'']) =
           [(JStr ''Talk'', 72, Some ''bold''), (JStr ''2024-12-05'', 40, None)]"
    by (simp add: talk_event_def present_def display_text_def dict_get_def
          time_patterns_def py_in_def split_head_def py_strip_def is_space_def)
  show ?thesis
    using generate_svg_content_blocks[where e = talk_event and px = "\<lambda>p. Inr True"
      and lp = "''files/APS logo-black.svg''" and found = True, OF h refl] h
    unfolding r
    by (elim exE conjE, intro conjI exI) assumption+
qed

text \<open>
  C2.  For every event whose date is falsy or a string (every event record is
  one), once the test for the logo file has returned, \<^verbatim>\<open>generate_svg\<close> returns a
  document in which the vertical offset of block \<open>i\<close> is the sum of
  \<open>font_size \<times> 1.2\<close> over the blocks before it, the total height is that sum over
  all blocks, the group starts at \<open>(1024 - total) / 2\<close>, the y coordinate of each
  block is the start plus its offset, and every block has x = 512, anchor
  \<^verbatim>\<open>middle\<close> and fill \<^verbatim>\<open>#FFFFFF\<close>.  Every product, sum, difference and quotient is
  the operation on doubles that the code performs, the sums taken in block order.
  In the witness the second block of three has y = 492.79999999999995, the double
  below 2464/5.
\<close>

theorem generate_svg_layout:
  fixes e :: pydict
  defines "blk \<equiv> (\<lambda>b::content_element. round_double (of_nat (ce_font_size b) * round_double (6 / 5)))"
  defines "fsum \<equiv> (\<lambda>bs. foldl (\<lambda>a h. round_double (a + h)) 0 (map blk bs))"
  assumes "\<not> truthy (dict_get e ''date'') \<or> (\<exists>s. dict_get e ''date'' = JStr s)"
    and "px lp = Inr found"
  shows "\<exists>bs tot doc fixed ts.
      collect_content e = Inr (bs, tot) \<and>
      (\<forall>i < length bs. ce_y_offset (bs ! i) = fsum (take i bs)) \<and>
      tot = fsum bs \<and>
      snd (generate_svg px e lp) = Inr doc \<and>
      svg_elements doc = fixed @ map Text ts \<and> length fixed = 3 \<and>
      length ts = length bs \<and>
      (\<forall>i < length bs.
          text_y (ts ! i) =
            round_double (round_double (round_double (1024 - tot) / 2) +
                          ce_y_offset (bs ! i)) \<and>
          text_font_size (ts ! i) = ce_font_size (bs ! i) \<and>
          text_x (ts ! i) = 512 \<and>
          text_anchor (ts ! i) = ''middle'' \<and>
          text_fill (ts ! i) = ''#FFFFFF'')"
proof -
  have t: "fsum bs = float_sum (map (\<lambda>b. block_height (ce_font_size b)) bs)" for bs
    by (simp add: fsum_def blk_def float_sum_def block_height_def)
  from date_ok_parse[OF assms(3)]
  obtain d where d: "parse_date_without_time (dict_get e ''date'') = Inr d" ..
  from collect_content_blocks[OF d] obtain bs tot where
    cc: "collect_content e = Inr (bs, tot)" by blast
  from collect_content_offsets[OF cc] have ok: "offsets_ok (bs, tot)" .
  define place where "place = (\<lambda>b::content_element. \<lparr>text_x = 512,
              text_y = round_double (round_double (round_double (1024 - tot) / 2) +
                                     ce_y_offset b),
              text_text = ce_text b, text_font_size = ce_font_size b,
              text_font_weight = ce_font_weight b, text_fill = ce_fill b,
              text_anchor = ''middle'', text_dominant_baseline = None,
              text_rendering = Some ''optimizeLegibility''\<rparr>)"
  define fixed where "fixed =
       [Rect \<lparr>rect_x = 0, rect_y = 0, rect_width = 1024, rect_height = 1024,
               rect_fill = ''#000000''\<rparr>,
        Image \<lparr>image_href = lp, image_x = 40, image_y = 40, image_width = 120,
                image_height = 120, image_preserveAspectRatio = ''xMidYMid meet''\<rparr>,
        Text \<lparr>text_x = 512, text_y = 100, text_text = JStr ''Palaeo Events!'',
               text_font_size = 64, text_font_weight = Some ''bold'',
               text_fill = ''#FFFFFF'', text_anchor = ''middle'',
               text_dominant_baseline = Some ''middle'', text_rendering = None\<rparr>]"
  have fx: "length fixed = 3" by (simp add: fixed_def)
  from generate_svg_Inr[of px lp found e bs tot, OF assms(4) cc] obtain doc where
    doc: "snd (generate_svg px e lp) = Inr doc" and
    el: "svg_elements doc = fixed @ map (\<lambda>b. Text (place b)) bs"
    unfolding place_def fixed_def by blast
  have e1: "svg_elements doc = fixed @ map Text (map place bs)"
    using el by (simp add: comp_def)
  have e2: "length (map place bs) = length bs" by simp
  have e3: "\<forall>i < length bs.
          text_y (map place bs ! i) =
            round_double (round_double (round_double (1024 - tot) / 2) +
                          ce_y_offset (bs ! i)) \<and>
          text_font_size (map place bs ! i) = ce_font_size (bs ! i) \<and>
          text_x (map place bs ! i) = 512 \<and>
          text_anchor (map place bs ! i) = ''middle'' \<and>
          text_fill (map place bs ! i) = ''#FFFFFF''"
    using ok by (simp add: offsets_ok_def TEXT_COLOUR_def place_def)
  have e4: "\<forall>i < length bs. ce_y_offset (bs ! i) = fsum (take i bs)"
    using ok by (simp add: offsets_ok_def t)
  have e5: "tot = fsum bs"
    using ok by (simp add: offsets_ok_def t)
  from cc e4 e5 doc e1 fx e2 e3 show ?thesis by blast
qed

theorem generate_svg_layout_witness:
  "dict_get meeting_event ''date'' = JStr ''2024-12-05'' \<and>
   (\<exists>doc fixed ts.
      snd (generate_svg (\<lambda>p. Inr True) meeting_event ''files/APS logo-black.svg'') = Inr doc \<and>
      svg_elements doc = fixed @ map Text ts \<and> length fixed = 3 \<and> length ts = 3 \<and>
      text_y (ts ! 0) = 7656119366529843 / 17592186044416 \<and>
      text_y (ts ! 1) = 2167357320672051 / 4398046511104 \<and>
      text_y (ts ! 2) = 2378463553205043 / 4398046511104)"
proof -
  have d: "dict_get meeting_event ''date'' = JStr ''2024-12-05''"
    by (simp add: meeting_event_def dict_get_def)
  then have h: "\<not> truthy (dict_get meeting_event ''date'') \<or>
           (\<exists>s. dict_get meeting_event ''date'' = JStr s)"
    by simp
  from generate_svg_layout[where e = meeting_event and px = "\<lambda>p. Inr True"
      and lp = "''files/APS logo-black.svg''" and found = True, OF h refl]
  obtain bs tot doc fixed ts where
    cc: "collect_content meeting_event = Inr (bs, tot)" and
    doc: "snd (generate_svg (\<lambda>p. Inr True) meeting_event ''files/APS logo-black.svg'') = Inr doc"
         "svg_elements doc = fixed @ map Text ts" "length fixed = 3"
         "length ts = length bs" and
    y: "\<forall>i < length bs. text_y (ts ! i) =
            round_double (round_double (round_double (1024 - tot) / 2) +
                          ce_y_offset (bs ! i)) \<and>
          text_font_size (ts ! i) = ce_font_size (bs ! i) \<and>
          text_x (ts ! i) = 512 \<and>
          text_anchor (ts ! i) = ''middle'' \<and>
          text_fill (ts ! i) = ''#FFFFFF''"
    by blast
  from cc have bs: "bs =
          [\<lparr>ce_text = JStr ''Monthly Meeting'', ce_font_size = 48, ce_font_weight = None,
             ce_fill = ''#FFFFFF'', ce_y_offset = 0\<rparr>,
           \<lparr>ce_text = JStr ''Dr. Smith'', ce_font_size = 40, ce_font_weight = None,
             ce_fill = ''#FFFFFF'', ce_y_offset = 2026619832316723 / 35184372088832\<rparr>,
           \<lparr>ce_text = JStr ''2024-12-05'', ce_font_size = 40, ce_font_weight = None,
             ce_fill = ''#FFFFFF'', ce_y_offset = 3715469692580659 / 35184372088832\<rparr>]"
    and tot: "tot = 5404319552844595 / 35184372088832"
    unfolding meeting_content by simp_all
  have l: "length bs = 3" unfolding bs by simp
  from y l have y0: "text_y (ts ! 0) =
      round_double (round_double (round_double (1024 - tot) / 2) + ce_y_offset (bs ! 0))"
    and y1: "text_y (ts ! 1) =
      round_double (round_double (round_double (1024 - tot) / 2) + ce_y_offset (bs ! 1))"
    and y2: "text_y (ts ! 2) =
      round_double (round_double (round_double (1024 - tot) / 2) + ce_y_offset (bs ! 2))"
    by simp_all
  have "text_y (ts ! 0) = 7656119366529843 / 17592186044416"
    unfolding y0 tot bs using meeting_ys(1) by simp
  moreover have "text_y (ts ! 1) = 2167357320672051 / 4398046511104"
    unfolding y1 tot bs using meeting_ys(2) by simp
  moreover have "text_y (ts ! 2) = 2378463553205043 / 4398046511104"
    unfolding y2 tot bs using meeting_ys(3) by simp
  ultimately show ?thesis using d doc l by auto
qed

text \<open>
  C10.  For every event whose date is a string that starts with \<^verbatim>\<open>T\<close>,
  \<^verbatim>\<open>parse_date_without_time\<close> returns the empty string and \<^verbatim>\<open>generate_svg\<close>
  still emits the date block, with the empty string as its text and font size
  40, at the offset the stack has reached.  The block takes \<open>40 \<times> 1.2\<close>, which is the
  double 48: compared with the same event without a date, the blocks before the
  date are the same, a later block starts at the offset plus 48 instead of at the
  offset, the total height is larger and the start of the group is higher.
\<close>

theorem leading_T_date_block:
  assumes "dict_get e ''date'' = JStr (CHR ''T'' # rest)" and "px lp = Inr found"
  shows "parse_date_without_time (JStr (CHR ''T'' # rest)) = Inr (JStr []) \<and>
    round_double (40 * round_double (6 / 5)) = 48 \<and>
    (\<exists>bs tot bs' tot' pre post off doc fixed ts.
       collect_content e = Inr (bs, tot) \<and>
       collect_content ((''date'', JNull) # e) = Inr (bs', tot') \<and>
       bs' = pre @ post \<and> length post \<le> 1 \<and>
       (\<forall>b \<in> set post. ce_y_offset b = off) \<and>
       bs = pre @ [\<lparr>ce_text = JStr [], ce_font_size = 40, ce_font_weight = None,
                    ce_fill = ''#FFFFFF'', ce_y_offset = off\<rparr>] @
            map (\<lambda>b. b\<lparr>ce_y_offset := round_double (off + 48)\<rparr>) post \<and>
       tot' = (if post = [] then off else round_double (off + 48)) \<and>
       tot = (if post = [] then round_double (off + 48)
              else round_double (round_double (off + 48) + 48)) \<and>
       tot' < tot \<and>
       round_double (round_double (1024 - tot) / 2) <
         round_double (round_double (1024 - tot') / 2) \<and>
       snd (generate_svg px e lp) = Inr doc \<and>
       svg_elements doc = fixed @ map Text ts \<and> length fixed = 3 \<and>
       \<lparr>text_x = 512,
        text_y = round_double (round_double (round_double (1024 - tot) / 2) + off),
        text_text = JStr [], text_font_size = 40, text_font_weight = None,
        text_fill = ''#FFFFFF'', text_anchor = ''middle'',
        text_dominant_baseline = None,
        text_rendering = Some ''optimizeLegibility''\<rparr> \<in> set ts)"
proof -
  let ?e' = "(''date'', JNull) # e"
  define st1 where "st1 = (if truthy (dict_get e ''title'')
     then append_block (dict_get e ''title'') 72 (Some ''bold'') ([], 0) else ([], 0))"
  define st2 where "st2 = (if truthy (dict_get e ''subtitle'')
     then append_block (dict_get e ''subtitle'') 48 None st1 else st1)"
  define st3 where "st3 = (if truthy (dict_get e ''host'')
     then append_block (dict_get e ''host'') 40 None st2 else st2)"
  define pre where "pre = fst st3"
  define off where "off = snd st3"
  have s3: "st3 = (pre, off)" by (simp add: pre_def off_def)
  have b1: "0 \<le> snd st1" "snd st1 \<le> 88"
  proof -
    have z: "(0::rat) \<le> snd ([]::content_element list, 0::rat)"
      "snd ([]::content_element list, 0::rat) \<le> 0" by simp_all
    show "0 \<le> snd st1"
      unfolding st1_def by (rule cond_append_bounds(1)[OF z]) simp_all
    have "snd st1 \<le> 0 + 88"
      unfolding st1_def by (rule cond_append_bounds(2)[OF z]) simp_all
    then show "snd st1 \<le> 88" by simp
  qed
  have b2: "0 \<le> snd st2" "snd st2 \<le> 176"
  proof -
    show "0 \<le> snd st2"
      unfolding st2_def by (rule cond_append_bounds(1)[OF b1]) simp_all
    have "snd st2 \<le> 88 + 88"
      unfolding st2_def by (rule cond_append_bounds(2)[OF b1]) simp_all
    then show "snd st2 \<le> 176" by simp
  qed
  have b3: "0 \<le> snd st3" "snd st3 \<le> 264"
  proof -
    show "0 \<le> snd st3"
      unfolding st3_def by (rule cond_append_bounds(1)[OF b2]) simp_all
    have "snd st3 \<le> 176 + 88"
      unfolding st3_def by (rule cond_append_bounds(2)[OF b2]) simp_all
    then show "snd st3 \<le> 264" by simp
  qed
  then have ob: "0 \<le> off" "off \<le> 264" by (simp_all add: off_def)
  define x1 where "x1 = round_double (off + 48)"
  define x2 where "x2 = round_double (x1 + 48)"
  from ob have "1 \<le> off + 48" "off + 48 \<le> 2048" by simp_all
  from round_double_near[OF this]
  have x1b: "off + 47 \<le> x1" "x1 \<le> off + 49" unfolding x1_def by linarith+
  with ob have "1 \<le> x1 + 48" "x1 + 48 \<le> 2048" by simp_all
  from round_double_near[OF this]
  have x2b: "x1 + 47 \<le> x2" "x2 \<le> x1 + 49" unfolding x2_def by linarith+
  define dblock where "dblock = \<lparr>ce_text = JStr [], ce_font_size = 40, ce_font_weight = None,
     ce_fill = ''#FFFFFF'', ce_y_offset = off\<rparr>"
  define post where "post = (if truthy (dict_get e ''location'')
     then [\<lparr>ce_text = dict_get e ''location'', ce_font_size = 40, ce_font_weight = None,
            ce_fill = ''#FFFFFF'', ce_y_offset = off\<rparr>] else [])"
  define tot' where "tot' = (if post = [] then off else x1)"
  define tot where "tot = (if post = [] then x1 else x2)"
  have g: "dict_get ?e' ''title'' = dict_get e ''title''"
    "dict_get ?e' ''subtitle'' = dict_get e ''subtitle''"
    "dict_get ?e' ''host'' = dict_get e ''host''"
    "dict_get ?e' ''location'' = dict_get e ''location''"
    "dict_get ?e' ''date'' = JNull"
    by (simp_all add: dict_get_def)
  have c': "collect_content ?e' = Inr (pre @ post, tot')"
    unfolding collect_content_def Let_def g
    unfolding st1_def[symmetric] st2_def[symmetric] st3_def[symmetric]
    by (simp add: s3 append_block_def post_def tot'_def x1_def height_values TEXT_COLOUR_def)
  have c: "collect_content e = Inr (pre @ [dblock] @
      map (\<lambda>b. b\<lparr>ce_y_offset := round_double (off + 48)\<rparr>) post, tot)"
    unfolding collect_content_def Let_def assms(1) parse_leading_T
    unfolding st1_def[symmetric] st2_def[symmetric] st3_def[symmetric]
    by (simp add: s3 append_block_def post_def tot_def x1_def x2_def dblock_def
          height_values TEXT_COLOUR_def)
  have lp: "length post \<le> 1" "\<forall>b \<in> set post. ce_y_offset b = off"
    by (simp_all add: post_def)
  have lt: "tot' < tot"
    unfolding tot'_def tot_def using x1b x2b by simp
  have tb: "0 \<le> tot'" "tot' + 47 \<le> tot" "tot \<le> 500"
    unfolding tot'_def tot_def using x1b x2b ob by auto
  then have tb': "0 \<le> tot" "tot' \<le> 500" by linarith+
  from start_bounds[OF tb'(1) tb(3)] start_bounds[OF tb(1) tb'(2)] tb(2)
  have st: "round_double (round_double (1024 - tot) / 2) <
         round_double (round_double (1024 - tot') / 2)"
    by linarith
  define place where "place = (\<lambda>b::content_element. \<lparr>text_x = 512,
              text_y = round_double (round_double (round_double (1024 - tot) / 2) +
                                     ce_y_offset b),
              text_text = ce_text b, text_font_size = ce_font_size b,
              text_font_weight = ce_font_weight b, text_fill = ce_fill b,
              text_anchor = ''middle'', text_dominant_baseline = None,
              text_rendering = Some ''optimizeLegibility''\<rparr>)"
  define fixed where "fixed =
       [Rect \<lparr>rect_x = 0, rect_y = 0, rect_width = 1024, rect_height = 1024,
               rect_fill = ''#000000''\<rparr>,
        Image \<lparr>image_href = lp, image_x = 40, image_y = 40, image_width = 120,
                image_height = 120, image_preserveAspectRatio = ''xMidYMid meet''\<rparr>,
        Text \<lparr>text_x = 512, text_y = 100, text_text = JStr ''Palaeo Events!'',
               text_font_size = 64, text_font_weight = Some ''bold'',
               text_fill = ''#FFFFFF'', text_anchor = ''middle'',
               text_dominant_baseline = Some ''middle'', text_rendering = None\<rparr>]"
  have fx: "length fixed = 3" by (simp add: fixed_def)
  define bs where "bs = pre @ [dblock] @
      map (\<lambda>b. b\<lparr>ce_y_offset := round_double (off + 48)\<rparr>) post"
  from generate_svg_Inr[of px lp found e bs tot, OF assms(2) c[folded bs_def]]
  obtain doc where
    doc: "snd (generate_svg px e lp) = Inr doc" and
    el: "svg_elements doc = fixed @ map (\<lambda>b. Text (place b)) bs"
    unfolding place_def fixed_def by blast
  have e1: "svg_elements doc = fixed @ map Text (map place bs)"
    using el by (simp add: comp_def)
  have mem: "\<lparr>text_x = 512,
        text_y = round_double (round_double (round_double (1024 - tot) / 2) + off),
        text_text = JStr [], text_font_size = 40, text_font_weight = None,
        text_fill = ''#FFFFFF'', text_anchor = ''middle'',
        text_dominant_baseline = None,
        text_rendering = Some ''optimizeLegibility''\<rparr> \<in> set (map place bs)"
  proof -
    have "place dblock \<in> set (map place bs)" by (simp add: bs_def)
    then show ?thesis by (simp add: place_def dblock_def)
  qed
  have v: "round_double (40 * round_double (6 / 5)) = 48"
    by (rule round_double_values)
  have t1: "tot' = (if post = [] then off else round_double (off + 48))"
    by (simp add: tot'_def x1_def)
  have t2: "tot = (if post = [] then round_double (off + 48)
              else round_double (round_double (off + 48) + 48))"
    by (simp add: tot_def x1_def x2_def)
  have cb: "collect_content e = Inr (bs, tot)" using c by (simp add: bs_def)
  have bsd: "bs = pre @ [\<lparr>ce_text = JStr [], ce_font_size = 40, ce_font_weight = None,
                    ce_fill = ''#FFFFFF'', ce_y_offset = off\<rparr>] @
            map (\<lambda>b. b\<lparr>ce_y_offset := round_double (off + 48)\<rparr>) post"
    by (simp add: bs_def dblock_def)
  have "\<exists>bs tot bs' tot' pre post off doc fixed ts.
       collect_content e = Inr (bs, tot) \<and>
       collect_content ((''date'', JNull) # e) = Inr (bs', tot') \<and>
       bs' = pre @ post \<and> length post \<le> 1 \<and>
       (\<forall>b \<in> set post. ce_y_offset b = off) \<and>
       bs = pre @ [\<lparr>ce_text = JStr [], ce_font_size = 40, ce_font_weight = None,
                    ce_fill = ''#FFFFFF'', ce_y_offset = off\<rparr>] @
            map (\<lambda>b. b\<lparr>ce_y_offset := round_double (off + 48)\<rparr>) post \<and>
       tot' = (if post = [] then off else round_double (off + 48)) \<and>
       tot = (if post = [] then round_double (off + 48)
              else round_double (round_double (off + 48) + 48)) \<and>
       tot' < tot \<and>
       round_double (round_double (1024 - tot) / 2) <
         round_double (round_double (1024 - tot') / 2) \<and>
       snd (generate_svg px e lp) = Inr doc \<and>
       svg_elements doc = fixed @ map Text ts \<and> length fixed = 3 \<and>
       \<lparr>text_x = 512,
        text_y = round_double (round_double (round_double (1024 - tot) / 2) + off),
        text_text = JStr [], text_font_size = 40, text_font_weight = None,
        text_fill = ''#FFFFFF'', text_anchor = ''middle'',
        text_dominant_baseline = None,
        text_rendering = Some ''optimizeLegibility''\<rparr> \<in> set ts"
    using cb c' lp bsd t1 t2 lt st doc e1 fx mem
    by (intro exI[of _ bs] exI[of _ tot] exI[of _ "pre @ post"] exI[of _ tot']
          exI[of _ pre] exI[of _ post] exI[of _ off] exI[of _ doc] exI[of _ fixed]
          exI[of _ "map place bs"] conjI) (assumption | rule refl)+
  with parse_leading_T[of rest] v show ?thesis by (intro conjI)
qed

theorem leading_T_date_block_witness:
  "dict_get tuesday_event ''date'' = JStr (CHR ''T'' # ''uesday, December 5, 2024'') \<and>
   parse_date_without_time (dict_get tuesday_event ''date'') = Inr (JStr []) \<and>
   (\<exists>bs tot bs' tot'.
      collect_content tuesday_event = Inr (bs, tot) \<and>
      collect_content ((''date'', JNull) # tuesday_event) = Inr (bs', tot') \<and>
      length bs = length bs' + 1 \<and> tot' < tot) \<and>
   (\<exists>doc fixed ts.
      snd (generate_svg (\<lambda>p. Inr True) tuesday_event ''files/APS logo-black.svg'') = Inr doc \<and>
      svg_elements doc = fixed @ map Text ts \<and> length fixed = 3 \<and> length ts = 3 \<and>
      text_text (ts ! 1) = JStr [] \<and>
      text_y (ts ! 1) = 2167357320672051 / 4398046511104)"
proof -
  have h: "dict_get tuesday_event ''date'' = JStr (CHR ''T'' # ''uesday, December 5, 2024'')"
    by (simp add: tuesday_event_def dict_get_def)
  from leading_T_date_block[where e = tuesday_event and px = "\<lambda>p. Inr True"
      and lp = "''files/APS logo-black.svg''" and found = True, OF h refl]
  obtain bs tot bs' tot' pre post off where
    p: "parse_date_without_time (JStr (CHR ''T'' # ''uesday, December 5, 2024'')) = Inr (JStr [])" and
    c: "collect_content tuesday_event = Inr (bs, tot)"
       "collect_content ((''date'', JNull) # tuesday_event) = Inr (bs', tot')" and
    b: "bs' = pre @ post"
       "bs = pre @ [\<lparr>ce_text = JStr [], ce_font_size = 40, ce_font_weight = None,
                    ce_fill = ''#FFFFFF'', ce_y_offset = off\<rparr>] @
            map (\<lambda>b. b\<lparr>ce_y_offset := round_double (off + 48)\<rparr>) post" and
    t: "tot' < tot"
    by blast
  from b have l: "length bs = length bs' + 1" by simp
  have a: "\<exists>bs tot bs' tot'.
      collect_content tuesday_event = Inr (bs, tot) \<and>
      collect_content ((''date'', JNull) # tuesday_event) = Inr (bs', tot') \<and>
      length bs = length bs' + 1 \<and> tot' < tot"
    using c l t by blast
  from generate_svg_Inr[of "\<lambda>p. Inr True" "''files/APS logo-black.svg''" True, OF refl
      tuesday_content]
  obtain doc where
    doc: "snd (generate_svg (\<lambda>p. Inr True) tuesday_event ''files/APS logo-black.svg'') = Inr doc"
    and el: "svg_elements doc =
       [Rect \<lparr>rect_x = 0, rect_y = 0, rect_width = 1024, rect_height = 1024,
               rect_fill = ''#000000''\<rparr>,
        Image \<lparr>image_href = ''files/APS logo-black.svg'', image_x = 40, image_y = 40,
                image_width = 120, image_height = 120,
                image_preserveAspectRatio = ''xMidYMid meet''\<rparr>,
        Text \<lparr>text_x = 512, text_y = 100, text_text = JStr ''Palaeo Events!'',
               text_font_size = 64, text_font_weight = Some ''bold'',
               text_fill = ''#FFFFFF'', text_anchor = ''middle'',
               text_dominant_baseline = Some ''middle'', text_rendering = None\<rparr>] @
       map (\<lambda>b. Text \<lparr>text_x = 512,
              text_y = round_double
                (round_double (round_double (1024 - 5404319552844595 / 35184372088832) / 2) +
                 ce_y_offset b),
              text_text = ce_text b, text_font_size = ce_font_size b,
              text_font_weight = ce_font_weight b, text_fill = ce_fill b,
              text_anchor = ''middle'', text_dominant_baseline = None,
              text_rendering = Some ''optimizeLegibility''\<rparr>)
         [\<lparr>ce_text = JStr ''Field trip'', ce_font_size = 48, ce_font_weight = None,
             ce_fill = ''#FFFFFF'', ce_y_offset = 0\<rparr>,
           \<lparr>ce_text = JStr [], ce_font_size = 40, ce_font_weight = None,
             ce_fill = ''#FFFFFF'', ce_y_offset = 2026619832316723 / 35184372088832\<rparr>,
           \<lparr>ce_text = JStr ''Calgary'', ce_font_size = 40, ce_font_weight = None,
             ce_fill = ''#FFFFFF'', ce_y_offset = 3715469692580659 / 35184372088832\<rparr>]"
    by blast
  define place where "place = (\<lambda>b::content_element. \<lparr>text_x = 512,
              text_y = round_double
                (round_double (round_double (1024 - 5404319552844595 / 35184372088832) / 2) +
                 ce_y_offset b),
              text_text = ce_text b, text_font_size = ce_font_size b,
              text_font_weight = ce_font_weight b, text_fill = ce_fill b,
              text_anchor = ''middle'', text_dominant_baseline = None,
              text_rendering = Some ''optimizeLegibility''\<rparr>)"
  define ts where "ts = map place
         [\<lparr>ce_text = JStr ''Field trip'', ce_font_size = 48, ce_font_weight = None,
             ce_fill = ''#FFFFFF'', ce_y_offset = 0\<rparr>,
           \<lparr>ce_text = JStr [], ce_font_size = 40, ce_font_weight = None,
             ce_fill = ''#FFFFFF'', ce_y_offset = 2026619832316723 / 35184372088832\<rparr>,
           \<lparr>ce_text = JStr ''Calgary'', ce_font_size = 40, ce_font_weight = None,
             ce_fill = ''#FFFFFF'', ce_y_offset = 3715469692580659 / 35184372088832\<rparr>]"
  define fixed where "fixed =
       [Rect \<lparr>rect_x = 0, rect_y = 0, rect_width = 1024, rect_height = 1024,
               rect_fill = ''#000000''\<rparr>,
        Image \<lparr>image_href = ''files/APS logo-black.svg'', image_x = 40, image_y = 40,
                image_width = 120, image_height = 120,
                image_preserveAspectRatio = ''xMidYMid meet''\<rparr>,
        Text \<lparr>text_x = 512, text_y = 100, text_text = JStr ''Palaeo Events!'',
               text_font_size = 64, text_font_weight = Some ''bold'',
               text_fill = ''#FFFFFF'', text_anchor = ''middle'',
               text_dominant_baseline = Some ''middle'', text_rendering = None\<rparr>]"
  have e1: "svg_elements doc = fixed @ map Text ts"
    unfolding el fixed_def ts_def place_def by simp
  have e2: "length fixed = 3" "length ts = 3" by (simp_all add: fixed_def ts_def)
  have e3: "text_text (ts ! 1) = JStr []" by (simp add: ts_def place_def)
  have e4: "text_y (ts ! 1) = 2167357320672051 / 4398046511104"
    using meeting_ys(2) by (simp add: ts_def place_def)
  have d: "\<exists>doc fixed ts.
      snd (generate_svg (\<lambda>p. Inr True) tuesday_event ''files/APS logo-black.svg'') = Inr doc \<and>
      svg_elements doc = fixed @ map Text ts \<and> length fixed = 3 \<and> length ts = 3 \<and>
      text_text (ts ! 1) = JStr [] \<and>
      text_y (ts ! 1) = 2167357320672051 / 4398046511104"
    using doc e1 e2 e3 e4 by blast
  from h p a d show ?thesis by simp
qed

section \<open>The Date Normalizer and the Digest Builder\<close>

lemma show_nat_nonempty: "show_nat n \<noteq> []"
  by (subst show_nat.simps) simp

lemma char_of_digit_neq_zero: "0 < (n::nat) \<Longrightarrow> n < 10 \<Longrightarrow> char_of (48 + n) \<noteq> CHR ''0''"
proof
  assume n: "0 < n" "n < 10" and e: "char_of (48 + n) = CHR ''0''"
  from e have "(of_char (char_of (48 + n) :: char) :: nat) = of_char CHR ''0''" by simp
  with n show False by (simp add: of_char_of)
qed

lemma show_nat_no_leading_zero: "0 < n \<Longrightarrow> hd (show_nat n) \<noteq> CHR ''0''"
proof (induction n rule: show_nat.induct)
  case (1 n)
  show ?case
  proof (cases "n < 10")
    case True
    with "1.prems" show ?thesis
      by (subst show_nat.simps) (simp add: char_of_digit_neq_zero)
  next
    case False
    then have "0 < n div 10" by (simp add: div_greater_zero_iff)
    with "1.IH"[OF False] have "hd (show_nat (n div 10)) \<noteq> CHR ''0''" by simp
    with False show ?thesis
      by (subst show_nat.simps) (simp add: show_nat_nonempty)
  qed
qed

lemma try_formats_find:
  "try_formats lib s fs =
     (case find (\<lambda>fmt. strptime lib s fmt \<noteq> None) fs of
        None \<Rightarrow> None | Some fmt \<Rightarrow> strptime lib s fmt)"
  by (induction fs) (auto split: option.splits)

lemma find_Some_holds: "find P xs = Some x \<Longrightarrow> P x"
  by (induction xs) (auto split: if_splits)

lemma date_parts_str:
  assumes "map_of e ''date'' = Some (JStr s)" and "s \<noteq> []"
  shows "date_parts lib e =
     (case try_formats lib s date_formats of
        Some d \<Rightarrow> Inr (strftime_A lib d, JStr (strftime_B lib d @ '' '' @ show_nat (d_day d)))
      | None \<Rightarrow> Inr ([], JStr s))"
  using assms by (simp add: date_parts_def dict_get_default_def)

lemma c_2024_12_05:
  "c_strptime ''2024-12-05'' ''%Y-%m-%d'' = Some \<lparr>d_year = 2024, d_month = 12, d_day = 5\<rparr>"
  by code_simp

lemma c_wednesday:
  "map (c_strptime ''Wednesday, December 5, 2024'') date_formats =
     [None, None, None, None, None, Some \<lparr>d_year = 2024, d_month = 12, d_day = 5\<rparr>, None]"
  by code_simp

lemma c_sometime:
  "map (c_strptime ''sometime next week'') date_formats =
     [None, None, None, None, None, None, None]"
  by code_simp

lemma c_thursday:
  "c_strftime_A \<lparr>d_year = 2024, d_month = 12, d_day = 5\<rparr> = ''Thursday''"
  by (simp add: c_strftime_A_def weekday_def ymd2ord_def days_before_year_def
        days_before_month_def is_leap_def weekday_names_def)

lemma c_december:
  "c_strftime_B \<lparr>d_year = 2024, d_month = 12, d_day = 5\<rparr> = ''December''"
  by (simp add: c_strftime_B_def month_names_def)

lemma show_nat_5: "show_nat 5 = ''5''"
  by code_simp

text \<open>
  C3.  For every non-empty date string, the format inference tries the seven
  formats in the listed order and takes the first that \<^verbatim>\<open>strptime\<close> parses.  On
  success the day name is \<^verbatim>\<open>strftime('%A')\<close> of the parsed date, a function of
  year, month and day alone, and the formatted date is the full month name, a
  space and the day number, which has no leading zero.  When no format parses, the
  day name is empty and the formatted date is the input itself; no exception is
  raised in either case.  The witness evaluates the library of the C locale on a
  date with a wrong weekday in it and on a string that is not a date.
\<close>

theorem date_parts_inference:
  assumes "map_of e ''date'' = Some (JStr s)" and "s \<noteq> []"
  shows "date_formats =
      [''%Y-%m-%d'', ''%B %d, %Y'', ''%b %d, %Y'', ''%m/%d/%Y'', ''%d/%m/%Y'',
       ''%A, %B %d, %Y'', ''%A, %b %d, %Y''] \<and>
     (case find (\<lambda>fmt. strptime lib s fmt \<noteq> None) date_formats of
        Some fmt \<Rightarrow>
          (\<exists>d. strptime lib s fmt = Some d \<and>
               date_parts lib e =
                 Inr (strftime_A lib d,
                      JStr (strftime_B lib d @ '' '' @ show_nat (d_day d))) \<and>
               (0 < d_day d \<longrightarrow> hd (show_nat (d_day d)) \<noteq> CHR ''0''))
      | None \<Rightarrow> date_parts lib e = Inr ([], JStr s))"
proof -
  have a: "date_formats =
      [''%Y-%m-%d'', ''%B %d, %Y'', ''%b %d, %Y'', ''%m/%d/%Y'', ''%d/%m/%Y'',
       ''%A, %B %d, %Y'', ''%A, %b %d, %Y'']"
    by (rule date_formats_def)
  have b: "(case find (\<lambda>fmt. strptime lib s fmt \<noteq> None) date_formats of
        Some fmt \<Rightarrow>
          (\<exists>d. strptime lib s fmt = Some d \<and>
               date_parts lib e =
                 Inr (strftime_A lib d,
                      JStr (strftime_B lib d @ '' '' @ show_nat (d_day d))) \<and>
               (0 < d_day d \<longrightarrow> hd (show_nat (d_day d)) \<noteq> CHR ''0''))
      | None \<Rightarrow> date_parts lib e = Inr ([], JStr s))"
  proof (cases "find (\<lambda>fmt. strptime lib s fmt \<noteq> None) date_formats")
    case None
    then show ?thesis
      by (simp add: date_parts_str[OF assms] try_formats_find)
  next
    case (Some fmt)
    from find_Some_holds[OF Some] obtain d where d: "strptime lib s fmt = Some d" by auto
    with Some show ?thesis
      by (simp add: date_parts_str[OF assms] try_formats_find show_nat_no_leading_zero)
  qed
  from a b show ?thesis ..
qed


theorem date_parts_inference_witness:
  "date_parts c_lib [(''date'', JStr ''Wednesday, December 5, 2024'')] =
     Inr (''Thursday'', JStr ''December 5'') \<and>
   date_parts c_lib [(''date'', JStr ''sometime next week'')] =
     Inr ([], JStr ''sometime next week'')"
proof -
  have f1: "find (\<lambda>fmt. strptime c_lib ''Wednesday, December 5, 2024'' fmt \<noteq> None) date_formats
      = Some ''%A, %B %d, %Y''"
    using c_wednesday by (simp add: date_formats_def c_lib_def)
  have p1: "strptime c_lib ''Wednesday, December 5, 2024'' ''%A, %B %d, %Y'' =
      Some \<lparr>d_year = 2024, d_month = 12, d_day = 5\<rparr>"
    using c_wednesday by (simp add: date_formats_def c_lib_def)
  have n1: "strftime_A c_lib \<lparr>d_year = 2024, d_month = 12, d_day = 5\<rparr> = ''Thursday''"
    "strftime_B c_lib \<lparr>d_year = 2024, d_month = 12, d_day = 5\<rparr> = ''December''"
    by (simp_all add: c_lib_def c_thursday c_december)
  have f2: "find (\<lambda>fmt. strptime c_lib ''sometime next week'' fmt \<noteq> None) date_formats = None"
    using c_sometime by (simp add: date_formats_def c_lib_def)
  from date_parts_inference[of "[(''date'', JStr ''Wednesday, December 5, 2024'')]"
      "''Wednesday, December 5, 2024''" c_lib]
  have a: "date_parts c_lib [(''date'', JStr ''Wednesday, December 5, 2024'')] =
     Inr (''Thursday'', JStr ''December 5'')"
    unfolding f1 by (simp add: p1 n1 show_nat_5)
  from date_parts_inference[of "[(''date'', JStr ''sometime next week'')]"
      "''sometime next week''" c_lib]
  have b: "date_parts c_lib [(''date'', JStr ''sometime next week'')] =
     Inr ([], JStr ''sometime next week'')"
    unfolding f2 by simp
  from a b show ?thesis ..
qed

lemma date_parts_normalize:
  assumes "optional_str (map_of e ''date'')"
  shows "\<exists>fd. date_parts lib e = Inr (fst (normalize_date lib (str_field e ''date'')), fd) \<and>
     truthy fd = (snd (normalize_date lib (str_field e ''date'')) \<noteq> []) \<and>
     (truthy fd \<longrightarrow> py_format lib fd = snd (normalize_date lib (str_field e ''date'')))"
proof (cases "\<exists>s. map_of e ''date'' = Some (JStr s) \<and> s \<noteq> []")
  case True
  then obtain s where s: "map_of e ''date'' = Some (JStr s)" "s \<noteq> []" by blast
  have sf: "str_field e ''date'' = s" using s by (simp add: str_field_def)
  show ?thesis
  proof (cases "find (\<lambda>fmt. strptime lib s fmt \<noteq> None) date_formats")
    case None
    with s show ?thesis
      by (simp add: sf date_parts_str[OF s] try_formats_find normalize_date_def py_format_def)
  next
    case (Some fmt)
    from find_Some_holds[OF Some] obtain d where "strptime lib s fmt = Some d" by auto
    with Some s show ?thesis
      by (simp add: sf date_parts_str[OF s] try_formats_find normalize_date_def py_format_def)
  qed
next
  case False
  with assms have "map_of e ''date'' = None \<or> map_of e ''date'' = Some JNull \<or>
      map_of e ''date'' = Some (JStr [])"
    by (auto simp: optional_str_def split: option.splits json.splits)
  then show ?thesis
    by (auto simp: date_parts_def dict_get_default_def str_field_def normalize_date_def)
qed

lemma optional_part:
  assumes "optional_str (map_of e k)"
  shows "(if truthy (dict_get_default e k (JStr []))
          then [JStr (f (py_format lib (dict_get_default e k (JStr []))))] else []) =
         (if str_field e k \<noteq> [] then [JStr (f (str_field e k))] else [])"
  using assms
  by (auto simp: optional_str_def dict_get_default_def str_field_def py_format_def
           split: option.splits json.splits)

lemma title_field:
  assumes "case map_of e ''title'' of None \<Rightarrow> True | Some (JStr s) \<Rightarrow> True | _ \<Rightarrow> False"
  shows "dict_get_default e ''title'' (JStr ''Event'') = JStr (title_text e)"
  using assms
  by (auto simp: dict_get_default_def title_text_def split: option.splits json.splits)

lemma event_line_digest:
  assumes "digest_record e"
  shows "event_line lib e =
     Inr (digest_line lib (title_text e) (str_field e ''date'') (str_field e ''location'')
            (str_field e ''host''))"
proof -
  from assms have
    t: "case map_of e ''title'' of None \<Rightarrow> True | Some (JStr s) \<Rightarrow> True | _ \<Rightarrow> False" and
    d: "optional_str (map_of e ''date'')" and
    l: "optional_str (map_of e ''location'')" and
    h: "optional_str (map_of e ''host'')"
    by (simp_all add: digest_record_def)
  from date_parts_normalize[OF d, of lib] obtain fd where
    dp: "date_parts lib e = Inr (fst (normalize_date lib (str_field e ''date'')), fd)" and
    tr: "truthy fd = (snd (normalize_date lib (str_field e ''date'')) \<noteq> [])" and
    pf: "truthy fd \<longrightarrow> py_format lib fd = snd (normalize_date lib (str_field e ''date''))"
    by blast
  obtain dn fds where n: "normalize_date lib (str_field e ''date'') = (dn, fds)"
    by (cases "normalize_date lib (str_field e ''date'')")
  have title: "dict_get_default e ''title'' (JStr ''Event'') = JStr (title_text e)"
    by (rule title_field[OF t])
  have loc: "(if truthy (dict_get_default e ''location'' (JStr []))
          then [JStr (''@ '' @ py_format lib (dict_get_default e ''location'' (JStr [])))]
          else []) =
         (if str_field e ''location'' \<noteq> [] then [JStr (''@ '' @ str_field e ''location'')]
          else [])"
    by (rule optional_part[OF l, of "\<lambda>s. ''@ '' @ s"])
  have host: "(if truthy (dict_get_default e ''host'' (JStr []))
          then [JStr (''('' @ py_format lib (dict_get_default e ''host'' (JStr [])) @ '')'')]
          else []) =
         (if str_field e ''host'' \<noteq> [] then [JStr (''('' @ str_field e ''host'' @ '')'')]
          else [])"
    by (rule optional_part[OF h, of "\<lambda>s. ''('' @ s @ '')''"])
  have el: "event_line lib e =
      py_join '' ''
        ([if dn \<noteq> [] \<and> truthy fd
          then JStr (dn @ '', '' @ py_format lib fd @ '': '' @ py_format lib (JStr (title_text e)))
          else if truthy fd
          then JStr (py_format lib fd @ '': '' @ py_format lib (JStr (title_text e)))
          else JStr (title_text e)] @
         (if str_field e ''location'' \<noteq> [] then [JStr (''@ '' @ str_field e ''location'')]
          else []) @
         (if str_field e ''host'' \<noteq> [] then [JStr (''('' @ str_field e ''host'' @ '')'')]
          else []))"
    unfolding event_line_def dp n title Let_def loc host by simp
  have pt: "py_format lib (JStr (title_text e)) = title_text e"
    by (simp add: py_format_def)
  show ?thesis
  proof (cases "fds = []")
    case True
    with tr n have "\<not> truthy fd" by simp
    with True show ?thesis
      unfolding el by (simp add: digest_line_def n py_join_def)
  next
    case False
    with tr pf n have "truthy fd" "py_format lib fd = fds" by simp_all
    with False show ?thesis
      unfolding el by (simp add: digest_line_def n py_join_def pt)
  qed
qed

lemma event_lines_digest:
  "list_all digest_record es \<Longrightarrow>
   event_lines lib es =
     Inr (map (\<lambda>e. digest_line lib (title_text e) (str_field e ''date'')
                     (str_field e ''location'') (str_field e ''host'')) es)"
  by (induction es) (simp_all add: event_line_digest)

lemma normalize_2024_12_05:
  "normalize_date c_lib ''2024-12-05'' = (''Thursday'', ''December 5'')"
  by (simp add: normalize_date_def date_formats_def c_lib_def c_2024_12_05 c_thursday
        c_december show_nat_5)

text \<open>
  Where the digest is built as specified: for events whose title is a string or
  missing and whose date, location and host are absent, null or strings, the
  digest is the lines of the events in input order, each built from the day name,
  the formatted date, the title (\<^verbatim>\<open>Event\<close> when the key is missing), the location
  and the host, followed by an empty line, the attribution line, an empty line and
  the hashtag line, joined with the line feed character.
\<close>

lemma generate_content_txt_digest:
  assumes "list_all digest_record es"
  shows "generate_content_txt lib es =
     Inr (join_strs [CHR 0x0A]
       (map (\<lambda>e. digest_line lib (title_text e) (str_field e ''date'')
                     (str_field e ''location'') (str_field e ''host'')) es @
        [[], ''For more information: see https://albertapaleo.org/events/calendar'', [],
         ''#palaeontology #paleontology #fossils #dinosaurs #events'']))"
  using assms
  by (simp add: generate_content_txt_def event_lines_digest footer_def newline_def)

lemma calgary_line:
  "event_line lib calgary_event =
     Inr (digest_line lib ''Talk'' ''2024-12-05'' ''Calgary'' ''Dr. X'')"
proof -
  have "digest_record calgary_event"
    by (simp add: digest_record_def calgary_event_def optional_str_def)
  from event_line_digest[OF this, of lib] show ?thesis
    by (simp add: title_text_def str_field_def calgary_event_def)
qed

lemma calgary_digest:
  "generate_content_txt c_lib [calgary_event] =
     Inr (''Thursday, December 5: Talk @ Calgary (Dr. X)'' @ [CHR 0x0A, CHR 0x0A] @
          ''For more information: see https://albertapaleo.org/events/calendar'' @
          [CHR 0x0A, CHR 0x0A] @
          ''#palaeontology #paleontology #fossils #dinosaurs #events'')"
proof -
  have h: "list_all digest_record [calgary_event]"
    by (simp add: digest_record_def calgary_event_def optional_str_def)
  have l: "digest_line c_lib (title_text calgary_event) (str_field calgary_event ''date'')
      (str_field calgary_event ''location'') (str_field calgary_event ''host'') =
      ''Thursday, December 5: Talk @ Calgary (Dr. X)''"
    by (simp add: digest_line_def title_text_def str_field_def calgary_event_def
          normalize_2024_12_05)
  from generate_content_txt_digest[OF h, of c_lib] show ?thesis
    by (simp add: l)
qed

lemma null_title_line: "event_line lib [(''title'', JNull)] = Inl TypeError"
  by (simp add: event_line_def date_parts_def dict_get_default_def py_join_def)

lemma null_title_dated_line:
  "event_line c_lib [(''title'', JNull), (''date'', JStr ''2024-12-05'')] =
     Inr ''Thursday, December 5: None''"
proof -
  let ?e = "[(''title'', JNull), (''date'', JStr ''2024-12-05'')]"
  have o: "optional_str (map_of ?e ''date'')" by (simp add: optional_str_def)
  have s: "str_field ?e ''date'' = ''2024-12-05''" by (simp add: str_field_def)
  from date_parts_normalize[OF o, of c_lib] obtain fd where
    dp: "date_parts c_lib ?e = Inr (''Thursday'', fd)" and
    tr: "truthy fd" and pf: "py_format c_lib fd = ''December 5''"
    unfolding s normalize_2024_12_05 by auto
  have n: "py_format c_lib JNull = ''None''"
    by (simp add: py_format_def c_lib_def c_str_def)
  show ?thesis
    by (simp add: event_line_def dp tr pf n dict_get_default_def py_join_def)
qed

text \<open>
  C5.  The digest does not survive a null title.  The record with a null title
  and no date is an event record, and on it \<^verbatim>\<open>generate_content_txt\<close> raises a
  TypeError, alone or after an event whose line is well formed: the title
  \<^verbatim>\<open>None\<close> is appended to the parts of the line as it is and \<^verbatim>\<open>" ".join\<close> rejects
  it.  \<^verbatim>\<open>main\<close> then writes no digest and ends with exit status 1.  With a date the
  line is built, with the text \<^verbatim>\<open>None\<close> as its title.
\<close>

theorem null_title_aborts_digest:
  "event_record [(''title'', JNull)] \<and>
   generate_content_txt lib [[(''title'', JNull)]] = Inl TypeError \<and>
   generate_content_txt lib [calgary_event, [(''title'', JNull)]] = Inl TypeError \<and>
   content_file (main env lib (Inr (JList [JDict calgary_event, JDict [(''title'', JNull)]]))) =
     None \<and>
   exit_code (main env lib (Inr (JList [JDict calgary_event, JDict [(''title'', JNull)]]))) = 1 \<and>
   event_line c_lib [(''title'', JNull), (''date'', JStr ''2024-12-05'')] =
     Inr ''Thursday, December 5: None''"
proof -
  have a: "event_record [(''title'', JNull)]"
    by (simp add: event_record_def field_order_def optional_str_def)
  have b: "generate_content_txt lib [[(''title'', JNull)]] = Inl TypeError"
    by (simp add: generate_content_txt_def null_title_line)
  have c: "generate_content_txt lib [calgary_event, [(''title'', JNull)]] = Inl TypeError"
    by (simp add: generate_content_txt_def null_title_line calgary_line)
  have v: "validate_api_response (JList [JDict calgary_event, JDict [(''title'', JNull)]]) =
      Inr [calgary_event, [(''title'', JNull)]]"
    by simp
  have d: "content_file (main env lib
        (Inr (JList [JDict calgary_event, JDict [(''title'', JNull)]]))) = None"
    and e: "exit_code (main env lib
        (Inr (JList [JDict calgary_event, JDict [(''title'', JNull)]]))) = 1"
    unfolding main_def v by (simp_all add: c Let_def)
  from a b c d e null_title_dated_line show ?thesis by (intro conjI)
qed

lemma untitled_line:
  "event_line c_lib untitled_event = Inr ''Thursday, December 5: ''"
proof -
  have "digest_record untitled_event"
    by (simp add: digest_record_def untitled_event_def optional_str_def)
  from event_line_digest[OF this, of c_lib] show ?thesis
    by (simp add: digest_line_def title_text_def str_field_def untitled_event_def
          normalize_2024_12_05)
qed

lemma missing_title_line:
  "event_line c_lib [(''date'', JStr ''2024-12-05'')] = Inr ''Thursday, December 5: Event''"
proof -
  have "digest_record [(''date'', JStr ''2024-12-05'')]"
    by (simp add: digest_record_def optional_str_def)
  from event_line_digest[OF this, of c_lib] show ?thesis
    by (simp add: digest_line_def title_text_def str_field_def normalize_2024_12_05)
qed

text \<open>
  C8.  An empty title is not replaced by the default.  For the event with the
  empty string as its title and the date 2024-12-05 the line of the digest ends
  after the colon, where the same event without the title key gets the title
  \<^verbatim>\<open>Event\<close>.
\<close>

theorem empty_title_not_defaulted:
  "map_of untitled_event ''title'' = Some (JStr []) \<and>
   event_line c_lib untitled_event = Inr ''Thursday, December 5: '' \<and>
   event_line c_lib untitled_event \<noteq> Inr ''Thursday, December 5: Event'' \<and>
   event_line c_lib [(''date'', JStr ''2024-12-05'')] = Inr ''Thursday, December 5: Event''"
  by (simp add: untitled_line missing_title_line) (simp add: untitled_event_def)

section \<open>The batch\<close>

lemma map_JDict_eq: "map JDict xs = map JDict ys \<longleftrightarrow> xs = ys"
  by (rule inj_map_eq_map) (simp add: inj_def)

lemma validate_events_Inr_iff:
  "validate_events i xs = Inr ds \<longleftrightarrow> xs = map JDict ds"
proof (induction xs arbitrary: i ds)
  case Nil
  then show ?case by auto
next
  case (Cons x xs)
  show ?case
  proof (cases x)
    case (JDict d)
    show ?thesis
    proof (cases "validate_events (Suc i) xs")
      case (Inl e)
      with Cons.IH[of "Suc i"] have "\<And>ds'. xs \<noteq> map JDict ds'" by simp
      with Inl JDict show ?thesis by (cases ds) auto
    next
      case (Inr ds')
      with Cons.IH[of "Suc i" ds'] have "xs = map JDict ds'" by simp
      with Inr JDict show ?thesis by (cases ds) (auto simp: map_JDict_eq)
    qed
  qed auto
qed

lemma validate_events_error:
  "validate_events i xs = Inl e \<Longrightarrow> \<exists>m. e = ValueError m"
proof (induction xs arbitrary: i)
  case Nil
  then show ?case by simp
next
  case (Cons x xs)
  then show ?case by (cases x) (auto split: sum.splits)
qed

lemma validate_api_response_Inr_iff:
  "validate_api_response r = Inr ds \<longleftrightarrow> r = JList (map JDict ds)"
  by (cases r) (auto simp: validate_events_Inr_iff)

lemma validate_api_response_error:
  "validate_api_response r = Inl e \<Longrightarrow> \<exists>m. e = ValueError m"
  by (cases r) (auto dest: validate_events_error)

lemma not_dict_list:
  assumes "(\<forall>xs. r \<noteq> JList xs) \<or> (\<exists>xs x. r = JList xs \<and> x \<in> set xs \<and> (\<forall>d. x \<noteq> JDict d))"
  shows "r \<noteq> JList (map JDict ds)"
  using assms by auto

text \<open>
  C7.  \<^verbatim>\<open>validate_api_response\<close> returns a list of events exactly when the fetch
  result is a list of dictionaries, and then it returns those dictionaries,
  unchanged and in order.  For every fetch result that is not a list, or that is a
  list with an element that is not a dictionary, it raises a ValueError and
  \<^verbatim>\<open>main\<close> ends with exit status 1 before any graphic is rendered and without a
  digest.
\<close>

theorem validate_api_response_batch:
  "(validate_api_response r = Inr ds \<longleftrightarrow> r = JList (map JDict ds)) \<and>
   ((\<forall>xs. r \<noteq> JList xs) \<or> (\<exists>xs x. r = JList xs \<and> x \<in> set xs \<and> (\<forall>d. x \<noteq> JDict d)) \<longrightarrow>
      (\<exists>m. validate_api_response r = Inl (ValueError m)) \<and>
      main env lib (Inr r) = \<lparr>svg_files = [], content_file = None, exit_code = 1\<rparr>)"
proof -
  have a: "validate_api_response r = Inr ds \<longleftrightarrow> r = JList (map JDict ds)"
    by (rule validate_api_response_Inr_iff)
  have b: "(\<exists>m. validate_api_response r = Inl (ValueError m)) \<and>
      main env lib (Inr r) = \<lparr>svg_files = [], content_file = None, exit_code = 1\<rparr>"
    if n: "(\<forall>xs. r \<noteq> JList xs) \<or>
           (\<exists>xs x. r = JList xs \<and> x \<in> set xs \<and> (\<forall>d. x \<noteq> JDict d))"
  proof (cases "validate_api_response r")
    case (Inl e)
    with validate_api_response_error[OF Inl] show ?thesis by (auto simp: main_def)
  next
    case (Inr ds')
    with not_dict_list[OF n, of ds'] show ?thesis
      by (simp add: validate_api_response_Inr_iff)
  qed
  from a b show ?thesis by blast
qed

theorem validate_api_response_batch_witness:
  "validate_api_response (JList [JDict calgary_event, JDict talk_event]) =
     Inr [calgary_event, talk_event] \<and>
   validate_api_response (JList [JDict calgary_event, JStr ''Talk'']) =
     Inl (ValueError (''Event at index 1 must be a dictionary, got str. '' @
                      ''Please check the API response format.'')) \<and>
   main quiet_env c_lib (Inr (JList [JDict calgary_event, JStr ''Talk''])) =
     \<lparr>svg_files = [], content_file = None, exit_code = 1\<rparr> \<and>
   main quiet_env c_lib (Inr (JDict [(''events'', JList [])])) =
     \<lparr>svg_files = [], content_file = None, exit_code = 1\<rparr>"
proof -
  have m: "validate_api_response (JList [JDict calgary_event, JStr ''Talk'']) =
     Inl (ValueError (''Event at index 1 must be a dictionary, got str. '' @
                      ''Please check the API response format.''))"
  proof -
    have "show_nat (Suc 0) = ''1''" by code_simp
    then show ?thesis by simp
  qed
  have h1: "(\<forall>xs. JList [JDict calgary_event, JStr ''Talk''] \<noteq> JList xs) \<or>
     (\<exists>xs x. JList [JDict calgary_event, JStr ''Talk''] = JList xs \<and> x \<in> set xs \<and>
        (\<forall>d. x \<noteq> JDict d))"
    by auto
  have h2: "(\<forall>xs. JDict [(''events'', JList [])] \<noteq> JList xs) \<or>
     (\<exists>xs x. JDict [(''events'', JList [])] = JList xs \<and> x \<in> set xs \<and>
        (\<forall>d. x \<noteq> JDict d))"
    by auto
  from validate_api_response_batch[of "JList [JDict calgary_event, JDict talk_event]"
      "[calgary_event, talk_event]" quiet_env c_lib]
  have a: "validate_api_response (JList [JDict calgary_event, JDict talk_event]) =
     Inr [calgary_event, talk_event]"
    by simp
  from validate_api_response_batch[of "JList [JDict calgary_event, JStr ''Talk'']" "[]"
      quiet_env c_lib] h1
  have b: "main quiet_env c_lib (Inr (JList [JDict calgary_event, JStr ''Talk''])) =
     \<lparr>svg_files = [], content_file = None, exit_code = 1\<rparr>"
    by blast
  from validate_api_response_batch[of "JDict [(''events'', JList [])]" "[]"
      quiet_env c_lib] h2
  have c: "main quiet_env c_lib (Inr (JDict [(''events'', JList [])])) =
     \<lparr>svg_files = [], content_file = None, exit_code = 1\<rparr>"
    by blast
  from a m b c show ?thesis by blast
qed

lemma collect_content_error:
  assumes "collect_content e = Inl err"
  shows "truthy (dict_get e ''date'') \<and> (\<forall>s. dict_get e ''date'' \<noteq> JStr s)"
proof -
  show ?thesis
  proof (cases "truthy (dict_get e ''date'')")
    case False
    with assms show ?thesis
      by (simp add: collect_content_def Let_def)
  next
    case True
    have "\<forall>s. dict_get e ''date'' \<noteq> JStr s"
    proof (intro allI notI)
      fix s assume s: "dict_get e ''date'' = JStr s"
      from parse_str[of s] obtain t where "parse_date_without_time (JStr s) = Inr (JStr t)" ..
      with assms True s show False
        by (simp add: collect_content_def Let_def del: parse_date_without_time.simps)
    qed
    with True show ?thesis by simp
  qed
qed


lemma generate_svg_error:
  "px lp = Inr found \<Longrightarrow> snd (generate_svg px e lp) = Inl err \<Longrightarrow>
   collect_content e = Inl err"
  by (auto simp: generate_svg_def Let_def split: sum.splits prod.splits)

lemma date_parts_error:
  assumes "truthy (dict_get e ''date'')" and "\<forall>s. dict_get e ''date'' \<noteq> JStr s"
  shows "date_parts lib e = Inl TypeError"
proof -
  from assms(1) obtain v where v: "map_of e ''date'' = Some v"
    by (cases "map_of e ''date''") (auto simp: dict_get_def)
  with assms have "truthy v" "\<forall>s. v \<noteq> JStr s" by (simp_all add: dict_get_def)
  with v show ?thesis
    by (cases v) (simp_all add: date_parts_def dict_get_default_def)
qed

lemma event_lines_error:
  "e \<in> set es \<Longrightarrow> event_line lib e = Inl x \<Longrightarrow> \<exists>err. event_lines lib es = Inl err"
  by (induction es) (auto split: sum.splits)

text \<open>
  The part of the isolation that holds: the loop writes the graphic of every
  event on which \<^verbatim>\<open>generate_svg\<close> and the writer succeed, under the index of the
  event, whatever happens on the other events.  When the test for the logo file
  itself raises, no graphic is written and the digest is not affected.
\<close>

lemma render_events_isolated:
  "render_events env i es =
     concat (map (\<lambda>(k, e).
        case snd (generate_svg (path_exists env) e default_logo_path) of
          Inl err \<Rightarrow> []
        | Inr doc \<Rightarrow> (case write_svg env k doc of Some err \<Rightarrow> [] | None \<Rightarrow> [(k, doc)]))
       (enumerate i es))"
  by (induction es arbitrary: i) (auto split: sum.splits option.splits)

lemma exists_error_skips_graphics:
  "path_exists env default_logo_path = Inl err \<Longrightarrow> render_events env i es = []"
  by (induction es arbitrary: i) (simp_all add: generate_svg_def)

text \<open>
  C6.  The digest does not survive an exception of \<^verbatim>\<open>generate_svg\<close>.  For every
  batch with an event on which \<^verbatim>\<open>generate_svg\<close> raises after the test for the logo
  file has returned, the loop of \<^verbatim>\<open>main\<close> catches the exception and goes on, but
  \<^verbatim>\<open>generate_content_txt\<close> raises on the same batch, so that \<^verbatim>\<open>main\<close> writes no
  digest and ends with exit status 1: past that test \<^verbatim>\<open>generate_svg\<close> raises only
  on a truthy date that is not a string, and on such a date \<^verbatim>\<open>strptime\<close> raises a
  TypeError, which the digest does not catch.
\<close>

theorem render_error_aborts_digest:
  assumes "e \<in> set es" and "px lp = Inr found" and "snd (generate_svg px e lp) = Inl err"
  shows "(\<exists>err'. generate_content_txt lib es = Inl err') \<and>
         content_file (main env lib (Inr (JList (map JDict es)))) = None \<and>
         exit_code (main env lib (Inr (JList (map JDict es)))) = 1"
proof -
  from collect_content_error[OF generate_svg_error[OF assms(2,3)]]
  have "date_parts lib e = Inl TypeError" by (intro date_parts_error) simp_all
  then have "event_line lib e = Inl TypeError" by (simp add: event_line_def)
  from event_lines_error[OF assms(1) this] obtain err' where
    el: "event_lines lib es = Inl err'" ..
  then have g: "generate_content_txt lib es = Inl err'"
    by (simp add: generate_content_txt_def)
  have v: "validate_api_response (JList (map JDict es)) = Inr es"
    by (simp only: validate_api_response_Inr_iff)
  from assms(1) have ne: "es \<noteq> []" by auto
  from g v ne show ?thesis by (simp add: main_def Let_def)
qed

theorem render_error_aborts_digest_witness:
  "snd (generate_svg (\<lambda>p. Inr True) numeric_date_event default_logo_path) = Inl TypeError \<and>
   generate_content_txt c_lib [calgary_event, numeric_date_event] = Inl TypeError \<and>
   length (svg_files (main quiet_env c_lib
      (Inr (JList [JDict calgary_event, JDict numeric_date_event])))) = 1 \<and>
   content_file (main quiet_env c_lib
      (Inr (JList [JDict calgary_event, JDict numeric_date_event]))) = None \<and>
   exit_code (main quiet_env c_lib
      (Inr (JList [JDict calgary_event, JDict numeric_date_event]))) = 1"
proof -
  have s: "snd (generate_svg (\<lambda>p. Inr True) numeric_date_event default_logo_path) =
      Inl TypeError"
    by (simp add: generate_svg_def collect_content_def numeric_date_event_def dict_get_def
          Let_def)
  have m: "numeric_date_event \<in> set [calgary_event, numeric_date_event]" by simp
  from render_error_aborts_digest[where px = "\<lambda>p. Inr True" and found = True
      and lib = c_lib and env = quiet_env, OF m refl s] obtain err' where
    g: "generate_content_txt c_lib [calgary_event, numeric_date_event] = Inl err'" and
    c: "content_file (main quiet_env c_lib
      (Inr (JList (map JDict [calgary_event, numeric_date_event])))) = None" and
    x: "exit_code (main quiet_env c_lib
      (Inr (JList (map JDict [calgary_event, numeric_date_event])))) = 1"
    by blast
  have l1: "event_line c_lib calgary_event = Inr ''Thursday, December 5: Talk @ Calgary (Dr. X)''"
  proof -
    have "digest_record calgary_event"
      by (simp add: digest_record_def calgary_event_def optional_str_def)
    from event_line_digest[OF this, of c_lib] show ?thesis
      by (simp add: digest_line_def title_text_def str_field_def calgary_event_def
            normalize_2024_12_05)
  qed
  have l2: "event_line c_lib numeric_date_event = Inl TypeError"
    by (simp add: event_line_def date_parts_def numeric_date_event_def dict_get_default_def)
  have g': "generate_content_txt c_lib [calgary_event, numeric_date_event] = Inl TypeError"
    by (simp add: generate_content_txt_def l1 l2)
  have ok: "\<exists>doc. snd (generate_svg (\<lambda>p. Inr True) calgary_event default_logo_path) = Inr doc"
  proof -
    have "event_record calgary_event"
      by (simp add: event_record_def calgary_event_def field_order_def optional_str_def)
    from optional_str_parse[OF event_record_field[OF this], of "''date''"]
    obtain d where "parse_date_without_time (dict_get calgary_event ''date'') = Inr d"
      by (auto simp: field_order_def)
    from collect_content_blocks[OF this] obtain bs tot where
      "collect_content calgary_event = Inr (bs, tot)" by blast
    from generate_svg_Inr[of "\<lambda>p. Inr True" default_logo_path True, OF refl this]
    show ?thesis by blast
  qed
  have f: "length (svg_files (main quiet_env c_lib
      (Inr (JList [JDict calgary_event, JDict numeric_date_event])))) = 1"
  proof -
    have v: "validate_api_response (JList [JDict calgary_event, JDict numeric_date_event]) =
        Inr [calgary_event, numeric_date_event]"
      by simp
    from ok obtain doc where
      "snd (generate_svg (\<lambda>p. Inr True) calgary_event default_logo_path) = Inr doc" ..
    with s have "render_events quiet_env 0 [calgary_event, numeric_date_event] = [(0, doc)]"
      by (simp add: quiet_env_def)
    with g' show ?thesis
      unfolding main_def v by (simp add: Let_def)
  qed
  from s g' f c x show ?thesis by simp
qed

end
